theory Spec2Isabelle
  imports Main
begin

section \<open>The parser list of ezPAARSE (lib/parserlist.js)\<close>

text \<open>
  The definitions below embed the class \<open>ParserList\<close> of lib/parserlist.js, method by
  method and under the names of the source. (The repository also holds an earlier
  variant of the module, written with callbacks and plain objects; it is not the one
  embedded here.)

  The module keeps three fields: \<open>domains\<close> (a JavaScript \<open>Map\<close> from a hostname to
  \<open>false\<close> or to an array of parser bindings), \<open>platforms\<close> (a \<open>Map\<close> from a platform
  short name to \<open>{ parser, domains: Set }\<close>) and \<open>missQueue\<close> (an array of hostnames
  waiting to be appended to domains.miss.csv).

  An exception is a value: a method returns its result or a \<open>js_error\<close>, together with
  the state it leaves, since the mutations made before a \<open>throw\<close> stay. An \<open>async\<close>
  method that runs to its end without interleaving (\<open>addDomainsOf\<close>, \<open>init\<close>) is a
  function; a rejected promise is the error. The drain loop of \<open>writeMiss\<close>, which other
  calls interleave with, is cut at its \<open>await\<close> into events of the runtime.

  Strings are modelled as lists of 8-bit characters with their ASCII meaning; hostnames
  and the ledger header are ASCII.
\<close>

subsection \<open>Data model\<close>

text \<open>The binding \<open>{ file, platform, platformName, publisherName }\<close>; the field \<open>file\<close> is
  named \<open>parser_file\<close> here.\<close>

record parser =
  parser_file :: string
  platform :: string
  platformName :: "string option"
  publisherName :: "string option"

text \<open>A value stored in the \<open>domains\<close> map: \<open>false\<close> or an array of parsers.\<close>

datatype domain_value = Unresolved | Candidates "parser list"

text \<open>A value stored in the \<open>platforms\<close> map: \<open>{ parser, domains: new Set() }\<close>.\<close>

record platform_entry =
  entry_parser :: parser
  entry_domains :: "string set"

datatype js_error = TypeError | SyntaxError | IOError

text \<open>The ledger file domains.miss.csv as \<open>fs.readFile\<close> sees it.\<close>

datatype file_state = Absent | Content string | Unreadable

text \<open>
  The first four fields are the fields of the \<open>ParserList\<close> object. \<open>domain_props\<close> holds
  the names of the own properties that \<open>this.domains[domain] = false\<close> has put on the
  \<open>Map\<close> object itself: such an assignment creates a property of the object and no entry
  of the map, so \<open>has\<close>, \<open>get\<close>, \<open>delete\<close> and \<open>size\<close> do not see it.

  The other fields are the environment: the calls of \<open>fs.appendFile\<close> that have
  started and not yet completed (each one is a drain loop of \<open>writeMiss\<close> suspended at its
  \<open>await\<close>, recorded by its \<open>currentDomain\<close>), the ledger file, whether \<open>fs.writeFile\<close>
  on the ledger succeeds, and the contents that \<open>fs.writeFile\<close> has written to the
  ledger so far, the oldest first.
\<close>

record parserlist =
  domains :: "string \<rightharpoonup> domain_value"
  domain_props :: "string set"
  platforms :: "string \<rightharpoonup> platform_entry"
  missQueue :: "string list"
  pending_appends :: "string list"
  missFile :: file_state
  missFile_writable :: bool
  missFile_writes :: "string list"

text \<open>The constructor, with the environment it starts in.\<close>

definition ParserList :: "file_state \<Rightarrow> parserlist" where
  "ParserList ledger =
     \<lparr> domains = Map.empty, domain_props = {}, platforms = Map.empty, missQueue = [],
       pending_appends = [], missFile = ledger, missFile_writable = True,
       missFile_writes = [] \<rparr>"

subsection \<open>Properties of the Map object\<close>

text \<open>
  A method call \<open>this.domains.has(...)\<close> looks the name up on the object first: once an own
  property of that name exists (its value is \<open>false\<close>), the call raises a TypeError.
\<close>

definition shadowed :: "parserlist \<Rightarrow> string \<Rightarrow> bool" where
  "shadowed s m = (m \<in> domain_props s)"

text \<open>
  \<open>this.domains[domain] = false\<close> in strict mode: \<open>size\<close> is an accessor of
  \<open>Map.prototype\<close> without a setter, so the assignment raises a TypeError; the setter of
  \<open>__proto__\<close> ignores a value that is not an object; any other name becomes an own
  property.
\<close>

definition assign_prop :: "string \<Rightarrow> parserlist \<Rightarrow> js_error + parserlist" where
  "assign_prop name s =
     (if name = ''size'' then Inl TypeError
      else if name = ''__proto__'' then Inr s
      else Inr (s\<lparr>domain_props := insert name (domain_props s)\<rparr>))"

subsection \<open>writeMiss\<close>

definition newline :: char where
  "newline = CHR 0x0A"

text \<open>
  The head of the loop \<open>while (this.missQueue.length > 0)\<close>: with a non-empty queue the
  loop reads \<open>missQueue[0]\<close>, starts \<open>fs.appendFile\<close> and is suspended at the \<open>await\<close>; with
  an empty queue it ends.
\<close>

datatype drain_outcome = Suspended | Resolved | Rejected

definition drain :: "parserlist \<Rightarrow> drain_outcome \<times> parserlist" where
  "drain s =
     (case missQueue s of
        [] \<Rightarrow> (Resolved, s)
      | currentDomain # _ \<Rightarrow>
          (Suspended, s\<lparr>pending_appends := pending_appends s @ [currentDomain]\<rparr>))"

text \<open>The synchronous part of a call of \<open>writeMiss\<close>, up to its first \<open>await\<close>.\<close>

definition writeMiss :: "string \<Rightarrow> parserlist \<Rightarrow> drain_outcome \<times> parserlist" where
  "writeMiss domain s =
     (let s1 = s\<lparr>missQueue := missQueue s @ [domain]\<rparr>
      in if length (missQueue s1) \<noteq> 1 then (Resolved, s1) else drain s1)"

text \<open>What \<open>fs.appendFile(missFile, `\n${currentDomain}`)\<close> does to the file when it
  succeeds: a missing file is created.\<close>

definition appendFile :: "string \<Rightarrow> file_state \<Rightarrow> file_state" where
  "appendFile text f =
     (case f of Absent \<Rightarrow> Content text | Content c \<Rightarrow> Content (c @ text) | Unreadable \<Rightarrow> Unreadable)"

text \<open>
  The \<open>i\<close>-th pending append completes, successfully (\<open>ok\<close>) or not, and the drain loop
  that awaited it resumes: the \<open>finally\<close> block shifts the queue (a shift of an empty array
  does nothing); after a success the loop goes back to its head, after a failure the
  exception leaves the loop and the promise of \<open>writeMiss\<close> is rejected. The result is
  \<open>None\<close> when there is no such pending append.
\<close>

definition appendFile_done :: "nat \<Rightarrow> bool \<Rightarrow> parserlist \<Rightarrow> (drain_outcome \<times> parserlist) option" where
  "appendFile_done i ok s =
     (if i < length (pending_appends s) then
        let currentDomain = pending_appends s ! i;
            s1 = s\<lparr>pending_appends := take i (pending_appends s) @ drop (Suc i) (pending_appends s),
                   missFile := (if ok then appendFile (newline # currentDomain) (missFile s)
                                else missFile s)\<rparr>;
            s2 = s1\<lparr>missQueue := tl (missQueue s1)\<rparr>
        in if ok then Some (drain s2) else Some (Rejected, s2)
      else None)"

subsection \<open>addMiss, add, get, clearPlatform\<close>

definition addMiss :: "string \<Rightarrow> parserlist \<Rightarrow> (js_error + bool) \<times> parserlist" where
  "addMiss domain s =
     (if shadowed s ''has'' then (Inl TypeError, s)
      else if domains s domain = None then
        (if shadowed s ''set'' then (Inl TypeError, s)
         else (Inr True, s\<lparr>domains := (domains s)(domain \<mapsto> Unresolved)\<rparr>))
      else (Inr False, s))"

text \<open>
  \<open>add\<close>: an exception leaves the mutations made before it in place.
  \<open>this.domains.get(domain).push(parser)\<close> raises a TypeError when the value is \<open>false\<close>.
\<close>

definition add :: "string \<Rightarrow> parser \<Rightarrow> parserlist \<Rightarrow> (js_error + unit) \<times> parserlist" where
  "add domain prs s =
     (if shadowed s ''has'' then (Inl TypeError, s)
      else if domains s domain = None \<and> shadowed s ''set'' then (Inl TypeError, s)
      else
        let s1 = (if domains s domain = None
                  then s\<lparr>domains := (domains s)(domain \<mapsto> Candidates [])\<rparr> else s);
            s2 = (if platforms s1 (platform prs) = None
                  then s1\<lparr>platforms := (platforms s1)(platform prs \<mapsto>
                             \<lparr>entry_parser = prs, entry_domains = {}\<rparr>)\<rparr>
                  else s1)
        in case platforms s2 (platform prs) of
             None \<Rightarrow> (Inl TypeError, s2)
           | Some platformEntry \<Rightarrow>
               if domain \<in> entry_domains platformEntry then (Inr (), s2)
               else if shadowed s2 ''get'' then (Inl TypeError, s2)
               else (case domains s2 domain of
                       Some (Candidates ps) \<Rightarrow>
                         (Inr (), s2\<lparr>domains := (domains s2)(domain \<mapsto> Candidates (ps @ [prs])),
                                      platforms := (platforms s2)(platform prs \<mapsto>
                                         platformEntry\<lparr>entry_domains :=
                                           insert domain (entry_domains platformEntry)\<rparr>)\<rparr>)
                     | _ \<Rightarrow> (Inl TypeError, s2)))"

text \<open>
  \<open>get\<close>: the parameter \<open>write\<close> is \<open>None\<close> when the caller leaves it out. When the map has
  no entry for the domain, \<open>this.domains.get(domain)\<close> is \<open>undefined\<close>, which is not
  \<open>=== false\<close>, so the miss path runs: it assigns the property and calls \<open>writeMiss\<close>
  without awaiting it.
\<close>

definition get :: "string \<Rightarrow> bool option \<Rightarrow> parserlist \<Rightarrow> (js_error + domain_value) \<times> parserlist" where
  "get domain write s =
     (if shadowed s ''has'' then (Inl TypeError, s)
      else if shadowed s ''get'' then (Inl TypeError, s)
      else case domains s domain of
             Some v \<Rightarrow> (Inr v, s)
           | None \<Rightarrow>
               (case assign_prop domain s of
                  Inl e \<Rightarrow> (Inl e, s)
                | Inr s1 \<Rightarrow>
                    if write \<noteq> Some False then (Inr Unresolved, snd (writeMiss domain s1))
                    else (Inr Unresolved, s1)))"

text \<open>\<open>clearPlatform\<close>: \<open>forEach\<close> over the platform's set deletes each of its domains.\<close>

definition clearPlatform :: "string \<Rightarrow> parserlist \<Rightarrow> (js_error + unit) \<times> parserlist" where
  "clearPlatform name s =
     (case platforms s name of
        None \<Rightarrow> (Inr (), s)
      | Some platformEntry \<Rightarrow>
          if entry_domains platformEntry \<noteq> {} \<and> shadowed s ''delete'' then (Inl TypeError, s)
          else (Inr (), s\<lparr>domains := (\<lambda>d. if d \<in> entry_domains platformEntry then None
                                             else domains s d),
                            platforms := (platforms s)(name := None)\<rparr>))"

subsection \<open>clearCachedParsers\<close>

text \<open>
  The loop is \<open>for (const { parser } in this.platforms.values())\<close>. A \<open>for ... in\<close>
  statement enumerates the enumerable string-keyed properties of the object it is given;
  here the object is the iterator that \<open>Map.prototype.values\<close> returns, which has no own
  property and inherits only non-enumerable ones. The loop therefore has no key to visit,
  whatever the map holds.
\<close>

definition for_in_keys_of_values :: "('k \<rightharpoonup> 'v) \<Rightarrow> string list" where
  "for_in_keys_of_values m = []"

text \<open>
  The loop body for one key: the pattern \<open>{ parser }\<close> applied to a string binds
  \<open>undefined\<close>, \<open>parser.file\<close> raises a TypeError, and the \<open>catch\<close> continues. The module
  cache \<open>require.cache\<close> (the set of cached file paths) is left as it is.
\<close>

definition clearCachedParsers_body :: "string set \<Rightarrow> string \<Rightarrow> string set" where
  "clearCachedParsers_body require_cache key = require_cache"

definition clearCachedParsers :: "parserlist \<Rightarrow> string set \<Rightarrow> string set" where
  "clearCachedParsers s require_cache =
     foldl clearCachedParsers_body require_cache (for_in_keys_of_values (platforms s))"

definition clearCachedParsers_iterations :: "parserlist \<Rightarrow> nat" where
  "clearCachedParsers_iterations s = length (for_in_keys_of_values (platforms s))"

subsection \<open>Strings and arrays of JavaScript\<close>

text \<open>\<open>content.split('\n')\<close>: never an empty array.\<close>

fun split_nl :: "string \<Rightarrow> string list" where
  "split_nl [] = [[]]"
| "split_nl (c # cs) =
     (if c = newline then [] # split_nl cs
      else (case split_nl cs of [] \<Rightarrow> [[c]] | l # ls \<Rightarrow> (c # l) # ls))"

text \<open>\<open>lines.join('\n')\<close>.\<close>

fun join_nl :: "string list \<Rightarrow> string" where
  "join_nl [] = []"
| "join_nl [l] = l"
| "join_nl (l # ls) = l @ newline # join_nl ls"

text \<open>\<open>trim\<close> removes the white space of ASCII (tab, line feed, vertical tab, form feed,
  carriage return, space) at both ends.\<close>

definition white_space :: "char \<Rightarrow> bool" where
  "white_space c = (c \<in> {CHR 0x09, CHR 0x0A, CHR 0x0B, CHR 0x0C, CHR 0x0D, CHR 0x20})"

definition trim :: "string \<Rightarrow> string" where
  "trim str = rev (dropWhile white_space (rev (dropWhile white_space str)))"

text \<open>An upper-case letter (codes 65 to 90) gets code + 32, which sets bit 5 of the code.\<close>

definition lower_char :: "char \<Rightarrow> char" where
  "lower_char c =
     (if (65::nat) \<le> of_char c \<and> of_char c \<le> (90::nat)
      then (case c of Char b0 b1 b2 b3 b4 b5 b6 b7 \<Rightarrow> Char b0 b1 b2 b3 b4 True b6 b7)
      else c)"

definition toLowerCase :: "string \<Rightarrow> string" where
  "toLowerCase str = map lower_char str"

text \<open>\<open>a > b\<close> on strings: the lexicographic order of the character codes.\<close>

fun string_gt :: "string \<Rightarrow> string \<Rightarrow> bool" where
  "string_gt [] b = False"
| "string_gt (x # a) [] = True"
| "string_gt (x # a) (y # b) =
     (if (of_char y :: nat) < of_char x then True
      else if (of_char x :: nat) < of_char y then False
      else string_gt a b)"

text \<open>
  \<open>Array.prototype.sort(comparefn)\<close>, modelled as the insertion sort that the runtime
  applies to a short array: the elements are taken from left to right, and each one
  is put into the sorted part before the first element that it does not compare
  greater than. The comparison function of \<open>init\<close> never returns zero, so a line goes
  before the lines that differ from it in case alone and were taken earlier: such lines
  end in the reverse of their order in the file. The language leaves that order to the
  implementation, and no statement below depends on it.
\<close>

fun insert_by :: "('a \<Rightarrow> 'a \<Rightarrow> int) \<Rightarrow> 'a \<Rightarrow> 'a list \<Rightarrow> 'a list" where
  "insert_by comparefn x [] = [x]"
| "insert_by comparefn x (y # ys) =
     (if comparefn x y > 0 then y # insert_by comparefn x ys else x # y # ys)"

definition array_sort :: "('a \<Rightarrow> 'a \<Rightarrow> int) \<Rightarrow> 'a list \<Rightarrow> 'a list" where
  "array_sort comparefn xs = foldl (\<lambda>sorted x. insert_by comparefn x sorted) [] xs"

text \<open>The comparison function of \<open>init\<close>:
  \<open>(a, b) => (a.toLowerCase() > b.toLowerCase() ? 1 : -1)\<close>.\<close>

definition miss_compare :: "string \<Rightarrow> string \<Rightarrow> int" where
  "miss_compare a b = (if string_gt (toLowerCase a) (toLowerCase b) then 1 else - 1)"

text \<open>A value is falsy when it is \<open>undefined\<close> or the empty string.\<close>

definition falsy :: "string option \<Rightarrow> bool" where
  "falsy v = (v = None \<or> v = Some [])"

text \<open>\<open>path.resolve(dir, name)\<close> for an absolute \<open>dir\<close> and a plain entry name.\<close>

definition path_resolve :: "string \<Rightarrow> string \<Rightarrow> string" where
  "path_resolve dir name = dir @ ''/'' @ name"

definition digit :: "char \<Rightarrow> bool" where
  "digit c = ((48::nat) \<le> of_char c \<and> of_char c \<le> (57::nat))"

text \<open>The test \<open>/_[0-9]{4}-[0-9]{2}-[0-9]{2}\.txt$/\<close>: the last fifteen characters (a shorter
  name is left whole by \<open>drop\<close> and fails the test).\<close>

definition pkb_file_pattern :: "string \<Rightarrow> bool" where
  "pkb_file_pattern f =
     (case drop (length f - 15) f of
        [u, y1, y2, y3, y4, h1, m1, m2, h2, d1, d2, dot, t1, x, t2] \<Rightarrow>
          u = CHR ''_'' \<and> digit y1 \<and> digit y2 \<and> digit y3 \<and> digit y4 \<and> h1 = CHR ''-''
          \<and> digit m1 \<and> digit m2 \<and> h2 = CHR ''-'' \<and> digit d1 \<and> digit d2
          \<and> dot = CHR ''.'' \<and> t1 = CHR ''t'' \<and> x = CHR ''x'' \<and> t2 = CHR ''t''
      | _ \<Rightarrow> False)"

subsection \<open>The platforms directory\<close>

text \<open>
  What the file system holds for one entry of the platforms directory. The manifest is
  taken as the directory contract gives it: an object with an optional string \<open>name\<close>,
  \<open>longname\<close>, \<open>publisher_name\<close>, an optional array of strings \<open>domains\<close> and an optional
  string \<open>pkb-domains\<close>.
\<close>

record manifest =
  m_name :: "string option"
  m_longname :: "string option"
  m_publisher_name :: "string option"
  m_domains :: "string list option"
  m_pkb_domains :: "string option"

datatype manifest_file = ManifestUnreadable | ManifestUnparsable | Manifest manifest

datatype stat_result = StatError | StatFile | StatDirectory

record platform_dir =
  dir_name :: string
  dir_stat :: stat_result
  manifest_json :: manifest_file
  parser_js :: bool
  pkb :: "string list option"

text \<open>
  \<open>csvextractor.extract(files, opts, callback)\<close> is a module of the repository whose
  source is not at hand: it is a parameter of the model, a function from the files and
  the field asked for to an error or to the records, each record a map from field names
  to values.
\<close>

type_synonym extractor = "string list \<Rightarrow> string \<Rightarrow> js_error + (string \<rightharpoonup> string) list"

subsection \<open>addDomainsOf\<close>

text \<open>\<open>forEach(domain => this.add(domain, parser))\<close>: an exception ends the iteration.\<close>

fun add_each :: "string list \<Rightarrow> parser \<Rightarrow> parserlist \<Rightarrow> (js_error + unit) \<times> parserlist" where
  "add_each [] prs s = (Inr (), s)"
| "add_each (domain # rest) prs s =
     (case add domain prs s of
        (Inl e, s') \<Rightarrow> (Inl e, s')
      | (Inr u, s') \<Rightarrow> add_each rest prs s')"

text \<open>The domains of the records: \<open>record[domainsPkbField]\<close> where it is truthy.\<close>

definition record_domains :: "string \<Rightarrow> (string \<rightharpoonup> string) list \<Rightarrow> string list" where
  "record_domains domainsPkbField records =
     List.map_filter (\<lambda>r. if falsy (r domainsPkbField) then None else r domainsPkbField) records"

definition addDomainsOf ::
  "extractor \<Rightarrow> string \<Rightarrow> platform_dir \<Rightarrow> parserlist \<Rightarrow> (js_error + unit) \<times> parserlist" where
  "addDomainsOf extract platformsDir dir s =
     (let platformDir = path_resolve platformsDir (dir_name dir);
          parserFile = path_resolve platformDir ''parser.js'';
          pkbFolder = path_resolve platformDir ''pkb''
      in (case manifest_json dir of
            ManifestUnreadable \<Rightarrow> (Inl IOError, s)
          | ManifestUnparsable \<Rightarrow> (Inl SyntaxError, s)
          | Manifest m \<Rightarrow>
              (if falsy (m_name m) then (Inr (), s)
               else if m_domains m = None \<and> falsy (m_pkb_domains m) then (Inr (), s)
               else if \<not> parser_js dir then (Inl IOError, s)
               else
                 (let prs = \<lparr>parser_file = parserFile, platform = the (m_name m),
                             platformName = m_longname m, publisherName = m_publisher_name m\<rparr>
                  in (case add_each (case m_domains m of None \<Rightarrow> [] | Some ds \<Rightarrow> ds) prs s of
                        (Inl e, s1) \<Rightarrow> (Inl e, s1)
                      | (Inr u, s1) \<Rightarrow>
                          (if falsy (m_pkb_domains m) then (Inr (), s1)
                           else (case pkb dir of
                                   None \<Rightarrow> (Inl IOError, s1)
                                 | Some files \<Rightarrow>
                                     (let pkbFiles = map (path_resolve pkbFolder)
                                                         (filter pkb_file_pattern files)
                                      in (if length pkbFiles = 0 then (Inr (), s1)
                                          else (case extract pkbFiles (the (m_pkb_domains m)) of
                                                  Inl e \<Rightarrow> (Inl e, s1)
                                                | Inr records \<Rightarrow>
                                                    add_each
                                                      (record_domains (the (m_pkb_domains m)) records)
                                                      prs s1))))))))))"

subsection \<open>init\<close>

text \<open>The loop \<open>for (const item of items)\<close>: a rejected \<open>await\<close> leaves the loop and \<open>init\<close>.\<close>

fun scan_items ::
  "extractor \<Rightarrow> string \<Rightarrow> platform_dir list \<Rightarrow> parserlist \<Rightarrow> (js_error + unit) \<times> parserlist" where
  "scan_items extract platformsDir [] s = (Inr (), s)"
| "scan_items extract platformsDir (item # items) s =
     (case dir_stat item of
        StatError \<Rightarrow> (Inl IOError, s)
      | StatFile \<Rightarrow> scan_items extract platformsDir items s
      | StatDirectory \<Rightarrow>
          (case addDomainsOf extract platformsDir item s of
             (Inl e, s') \<Rightarrow> (Inl e, s')
           | (Inr u, s') \<Rightarrow> scan_items extract platformsDir items s'))"

text \<open>\<open>lines.filter(domain => this.addMiss(domain))\<close>.\<close>

fun filter_addMiss :: "string list \<Rightarrow> parserlist \<Rightarrow> (js_error + string list) \<times> parserlist" where
  "filter_addMiss [] s = (Inr [], s)"
| "filter_addMiss (domain # rest) s =
     (case addMiss domain s of
        (Inl e, s') \<Rightarrow> (Inl e, s')
      | (Inr keep, s') \<Rightarrow>
          (case filter_addMiss rest s' of
             (Inl e, s'') \<Rightarrow> (Inl e, s'')
           | (Inr kept, s'') \<Rightarrow> (Inr (if keep then domain # kept else kept), s'')))"

text \<open>\<open>missFileContent || ''\<close>: what \<open>init\<close> splits, the empty string for a missing file.\<close>

definition missFileContent :: "file_state \<Rightarrow> string" where
  "missFileContent f = (case f of Content c \<Rightarrow> c | _ \<Rightarrow> [])"

text \<open>A successful \<open>fs.writeFile(missFile, data)\<close> replaces the content of the ledger.\<close>

definition writeFile :: "string \<Rightarrow> parserlist \<Rightarrow> parserlist" where
  "writeFile data s = s\<lparr>missFile := Content data, missFile_writes := missFile_writes s @ [data]\<rparr>"

text \<open>
  The second half of \<open>init\<close>, from the reading of domains.miss.csv on. A missing file
  reads as the empty string; any other failure of \<open>readFile\<close>, and any failure of
  \<open>writeFile\<close>, rejects. When the first line is not the header, the file is written
  twice: \<open>domain\<close> first, and then, as for any ledger, the header and the kept lines.
\<close>

definition init_missing_domains :: "parserlist \<Rightarrow> (js_error + unit) \<times> parserlist" where
  "init_missing_domains s =
     (case missFile s of
        Unreadable \<Rightarrow> (Inl IOError, s)
      | f \<Rightarrow>
          (case split_nl (missFileContent f) of
             [] \<Rightarrow> (Inl TypeError, s)
           | first # lines \<Rightarrow>
               (let firstLine = trim first
                in (if firstLine \<noteq> ''domain'' \<and> \<not> missFile_writable s then (Inl IOError, s)
                    else
                      (let s1 = (if firstLine \<noteq> ''domain'' then writeFile ''domain'' s else s)
                       in (case filter_addMiss lines s1 of
                             (Inl e, s2) \<Rightarrow> (Inl e, s2)
                           | (Inr kept, s2) \<Rightarrow>
                               (if \<not> missFile_writable s2 then (Inl IOError, s2)
                                else (Inr (),
                                      writeFile (''domain'' @ newline #
                                                 join_nl (array_sort miss_compare kept)) s2))))))))"

text \<open>\<open>i.startsWith('.')\<close>.\<close>

definition startsWith_dot :: "string \<Rightarrow> bool" where
  "startsWith_dot i = (case i of [] \<Rightarrow> False | c # cs \<Rightarrow> c = CHR ''.'')"

text \<open>
  \<open>init\<close>: \<open>listing\<close> is what \<open>fs.readdir(platformsDir)\<close> returns, \<open>None\<close> when it fails.
  The new \<open>Map\<close> objects have no own property.
\<close>

definition init ::
  "extractor \<Rightarrow> string \<Rightarrow> platform_dir list option \<Rightarrow> parserlist \<Rightarrow> (js_error + unit) \<times> parserlist" where
  "init extract platformsDir listing s0 =
     (let s = s0\<lparr>domains := Map.empty, domain_props := {}, platforms := Map.empty,
                 missQueue := []\<rparr>
      in (case listing of
            None \<Rightarrow> (Inl IOError, s)
          | Some entries \<Rightarrow>
              (let items = filter (\<lambda>i. \<not> startsWith_dot (dir_name i)
                                       \<and> dir_name i \<noteq> ''js-parser-skeleton'') entries
               in (case scan_items extract platformsDir items s of
                     (Inl e, s') \<Rightarrow> (Inl e, s')
                   | (Inr u, s') \<Rightarrow> init_missing_domains s'))))"

subsection \<open>Runs of the module\<close>

text \<open>A sequence of calls \<open>add(domain, parser)\<close>, stopped by the first exception.\<close>

fun add_calls :: "(string \<times> parser) list \<Rightarrow> parserlist \<Rightarrow> (js_error + unit) \<times> parserlist" where
  "add_calls [] s = (Inr (), s)"
| "add_calls ((domain, prs) # calls) s =
     (case add domain prs s of
        (Inl e, s') \<Rightarrow> (Inl e, s')
      | (Inr u, s') \<Rightarrow> add_calls calls s')"

text \<open>
  The events of the single-threaded runtime that concern the queue: a call of
  \<open>writeMiss\<close> (its synchronous part), and the completion of a pending append followed by
  the rest of the drain loop up to its next \<open>await\<close>. An event that cannot happen (no such
  pending append) gives \<open>None\<close>.
\<close>

datatype event = WriteMiss string | AppendDone nat bool

fun step :: "event \<Rightarrow> parserlist \<Rightarrow> parserlist option" where
  "step (WriteMiss domain) s = Some (snd (writeMiss domain s))"
| "step (AppendDone i ok) s = map_option snd (appendFile_done i ok s)"

fun run :: "event list \<Rightarrow> parserlist \<Rightarrow> parserlist option" where
  "run [] s = Some s"
| "run (ev # evs) s = (case step ev s of None \<Rightarrow> None | Some s' \<Rightarrow> run evs s')"

subsection \<open>Notions of the specification\<close>

text \<open>
  The candidate list the specification asks for: one binding for each distinct platform
  that registered the domain, in the order in which the platforms first registered it.
\<close>

definition push_new :: "parser list \<Rightarrow> parser \<Rightarrow> parser list" where
  "push_new acc prs = (if platform prs \<in> platform ` set acc then acc else acc @ [prs])"

definition registered_by :: "string \<Rightarrow> (string \<times> parser) list \<Rightarrow> parser list" where
  "registered_by domain calls =
     foldl push_new [] (map snd (filter (\<lambda>c. fst c = domain) calls))"

text \<open>The candidates of a domain in a state, none when it has no array.\<close>

definition candidates :: "parserlist \<Rightarrow> string \<Rightarrow> parser list" where
  "candidates s domain = (case domains s domain of Some (Candidates ps) \<Rightarrow> ps | _ \<Rightarrow> [])"

text \<open>
  A registry in which no method of the map is hidden by a property, every domain of the
  map has an array, and a platform owns a domain exactly when the array of the domain
  holds a binding of the platform.
\<close>

definition consistent :: "parserlist \<Rightarrow> bool" where
  "consistent s =
     (domain_props s = {}
      \<and> (\<forall>d. domains s d \<noteq> Some Unresolved)
      \<and> (\<forall>P d. (\<exists>e. platforms s P = Some e \<and> d \<in> entry_domains e)
                 \<longleftrightarrow> P \<in> platform ` set (candidates s d)))"

text \<open>The hostnames passed to \<open>writeMiss\<close> in a sequence of events, in call order.\<close>

fun enqueued :: "event list \<Rightarrow> string list" where
  "enqueued [] = []"
| "enqueued (WriteMiss domain # evs) = domain # enqueued evs"
| "enqueued (AppendDone i ok # evs) = enqueued evs"

text \<open>An event in which no append fails.\<close>

fun succeeds :: "event \<Rightarrow> bool" where
  "succeeds (WriteMiss domain) = True"
| "succeeds (AppendDone i ok) = ok"

text \<open>The ledger after the hostnames \<open>ds\<close> have been appended to it, one line each.\<close>

definition appended :: "file_state \<Rightarrow> string list \<Rightarrow> file_state" where
  "appended f ds = foldl (\<lambda>f d. appendFile (newline # d) f) f ds"

text \<open>
  The queue and the ledger agree with the hostnames \<open>all\<close> enqueued so far: a prefix of
  them has been appended to the ledger \<open>f0\<close>, the rest is the queue, and the only pending
  append is the one of the front of the queue.
\<close>

definition drained_upto :: "file_state \<Rightarrow> string list \<Rightarrow> parserlist \<Rightarrow> bool" where
  "drained_upto f0 all s =
     ((\<exists>k\<le>length all. missQueue s = drop k all \<and> missFile s = appended f0 (take k all))
      \<and> pending_appends s = take 1 (missQueue s))"

text \<open>
  The lines that \<open>addMiss\<close> accepts one after the other, starting from the map \<open>m\<close>:
  those without an entry, each one once; and the map they leave.
\<close>

fun unseen :: "(string \<rightharpoonup> domain_value) \<Rightarrow> string list \<Rightarrow> string list" where
  "unseen m [] = []"
| "unseen m (l # ls) =
     (if m l = None then l # unseen (m(l \<mapsto> Unresolved)) ls else unseen m ls)"

fun mark_unseen :: "(string \<rightharpoonup> domain_value) \<Rightarrow> string list \<Rightarrow> (string \<rightharpoonup> domain_value)" where
  "mark_unseen m [] = m"
| "mark_unseen m (l # ls) =
     (if m l = None then mark_unseen (m(l \<mapsto> Unresolved)) ls else mark_unseen m ls)"

text \<open>Ascending in the case-insensitive order: \<open>a\<close> in lower case is not greater than \<open>b\<close>
  in lower case.\<close>

definition ci_le :: "string \<Rightarrow> string \<Rightarrow> bool" where
  "ci_le a b = (\<not> string_gt (toLowerCase a) (toLowerCase b))"

subsection \<open>Example inputs\<close>

definition parserA :: parser where
  "parserA = \<lparr>parser_file = ''/ezpaarse/platforms/platformA/parser.js'', platform = ''platformA'',
               platformName = None, publisherName = None\<rparr>"

definition parserB :: parser where
  "parserB = \<lparr>parser_file = ''/ezpaarse/platforms/platformB/parser.js'', platform = ''platformB'',
               platformName = None, publisherName = None\<rparr>"

text \<open>A ledger with the lines \<open>domain\<close>, \<open>a.com\<close>, \<open>b.com\<close>, and a registry in which a platform
  has registered \<open>a.com\<close>.\<close>

definition ledger_ab :: file_state where
  "ledger_ab = Content (''domain'' @ newline # ''a.com'' @ newline # ''b.com'')"

definition registry_a :: parserlist where
  "registry_a = snd (add ''a.com'' parserA (ParserList ledger_ab))"

text \<open>A ledger whose first line is not the header.\<close>

definition ledger_corrupt :: file_state where
  "ledger_corrupt = Content (''foo'' @ newline # ''b.com'')"

text \<open>Three misses, the third one after the first append has completed.\<close>

definition events_xyz :: "event list" where
  "events_xyz = [WriteMiss ''x.org'', WriteMiss ''y.org'', AppendDone 0 True, WriteMiss ''z.org'']"

text \<open>Two platforms that both registered \<open>shared.example.com\<close>; the first one alone
  registered \<open>only-a.example.com\<close>.\<close>

definition registry_shared :: parserlist where
  "registry_shared =
     snd (add_calls [(''shared.example.com'', parserA), (''only-a.example.com'', parserA),
                     (''shared.example.com'', parserB)] (ParserList Absent))"

text \<open>No method of the domain map that the module calls is hidden by a property.\<close>

definition methods_intact :: "parserlist \<Rightarrow> bool" where
  "methods_intact s =
     (\<not> shadowed s ''has'' \<and> \<not> shadowed s ''get'' \<and> \<not> shadowed s ''set''
      \<and> \<not> shadowed s ''delete'')"

subsection \<open>Platform directories that register, and those that are skipped\<close>

text \<open>A manifest without a name, or with neither \<open>domains\<close> nor \<open>pkb-domains\<close>.\<close>

definition lacks_required_fields :: "manifest \<Rightarrow> bool" where
  "lacks_required_fields m =
     (falsy (m_name m) \<or> (m_domains m = None \<and> falsy (m_pkb_domains m)))"

text \<open>The files of the knowledge base that \<open>addDomainsOf\<close> hands to the extractor.\<close>

definition pkbFiles_of :: "string \<Rightarrow> platform_dir \<Rightarrow> string list" where
  "pkbFiles_of platformsDir dir =
     (case pkb dir of
        None \<Rightarrow> []
      | Some files \<Rightarrow>
          map (path_resolve (path_resolve (path_resolve platformsDir (dir_name dir)) ''pkb''))
              (filter pkb_file_pattern files))"

text \<open>
  A directory whose platform registers without a failure: a manifest with the required
  fields, a parser file and, when the manifest names a field of the knowledge base, a
  readable \<open>pkb\<close> folder whose matching files, if any, the extractor accepts.
\<close>

definition well_formed :: "extractor \<Rightarrow> string \<Rightarrow> platform_dir \<Rightarrow> bool" where
  "well_formed extract platformsDir dir =
     (dir_stat dir = StatDirectory
      \<and> (case manifest_json dir of
            Manifest m \<Rightarrow>
              \<not> lacks_required_fields m \<and> parser_js dir
              \<and> (falsy (m_pkb_domains m)
                  \<or> (pkb dir \<noteq> None
                      \<and> (pkbFiles_of platformsDir dir = []
                          \<or> (case extract (pkbFiles_of platformsDir dir) (the (m_pkb_domains m)) of
                                Inl e \<Rightarrow> False | Inr records \<Rightarrow> True))))
          | _ \<Rightarrow> False))"

text \<open>The domains such a directory declares: those of the manifest, then those of the
  records of its knowledge base.\<close>

definition declared_domains :: "extractor \<Rightarrow> string \<Rightarrow> platform_dir \<Rightarrow> string list" where
  "declared_domains extract platformsDir dir =
     (case manifest_json dir of
        Manifest m \<Rightarrow>
          (case m_domains m of None \<Rightarrow> [] | Some ds \<Rightarrow> ds)
          @ (if falsy (m_pkb_domains m) \<or> pkbFiles_of platformsDir dir = [] then []
             else (case extract (pkbFiles_of platformsDir dir) (the (m_pkb_domains m)) of
                     Inl e \<Rightarrow> []
                   | Inr records \<Rightarrow> record_domains (the (m_pkb_domains m)) records))
      | _ \<Rightarrow> [])"

text \<open>The short name under which a directory registers.\<close>

definition declared_name :: "platform_dir \<Rightarrow> string" where
  "declared_name dir = (case manifest_json dir of Manifest m \<Rightarrow> the (m_name m) | _ \<Rightarrow> [])"

text \<open>An entry that \<open>init\<close> does not filter out of the listing.\<close>

definition scanned :: "platform_dir \<Rightarrow> bool" where
  "scanned dir = (\<not> startsWith_dot (dir_name dir) \<and> dir_name dir \<noteq> ''js-parser-skeleton'')"

text \<open>The platform \<open>P\<close> has a binding in the array of the domain \<open>d\<close>.\<close>

definition bound_to :: "parserlist \<Rightarrow> string \<Rightarrow> string \<Rightarrow> bool" where
  "bound_to s d P = (P \<in> platform ` set (candidates s d))"

text \<open>Example directories: a manifest that does not parse, a platform without its parser
  file, a platform that names a field of the knowledge base and has no \<open>pkb\<close> folder, a
  manifest without domains, and two platforms with one domain each. The extractor of
  the examples returns no record.\<close>

definition extract_none :: extractor where
  "extract_none files field = Inr []"

definition dir_unparsable :: platform_dir where
  "dir_unparsable = \<lparr>dir_name = ''platformA'', dir_stat = StatDirectory,
      manifest_json = ManifestUnparsable, parser_js = True, pkb = None\<rparr>"

definition dir_no_parser :: platform_dir where
  "dir_no_parser = \<lparr>dir_name = ''platformA'', dir_stat = StatDirectory,
      manifest_json = Manifest \<lparr>m_name = Some ''platformA'', m_longname = None,
         m_publisher_name = None, m_domains = Some [''a.com''], m_pkb_domains = None\<rparr>,
      parser_js = False, pkb = None\<rparr>"

definition dir_no_pkb :: platform_dir where
  "dir_no_pkb = \<lparr>dir_name = ''platformA'', dir_stat = StatDirectory,
      manifest_json = Manifest \<lparr>m_name = Some ''platformA'', m_longname = None,
         m_publisher_name = None, m_domains = None, m_pkb_domains = Some ''domain''\<rparr>,
      parser_js = True, pkb = None\<rparr>"

definition dir_no_domains :: platform_dir where
  "dir_no_domains = \<lparr>dir_name = ''platformC'', dir_stat = StatDirectory,
      manifest_json = Manifest \<lparr>m_name = Some ''platformC'', m_longname = None,
         m_publisher_name = None, m_domains = None, m_pkb_domains = None\<rparr>,
      parser_js = True, pkb = None\<rparr>"

definition dir_a :: platform_dir where
  "dir_a = \<lparr>dir_name = ''platformA'', dir_stat = StatDirectory,
      manifest_json = Manifest \<lparr>m_name = Some ''platformA'', m_longname = None,
         m_publisher_name = None, m_domains = Some [''a.com''], m_pkb_domains = None\<rparr>,
      parser_js = True, pkb = None\<rparr>"

definition dir_b :: platform_dir where
  "dir_b = \<lparr>dir_name = ''platformB'', dir_stat = StatDirectory,
      manifest_json = Manifest \<lparr>m_name = Some ''platformB'', m_longname = None,
         m_publisher_name = None, m_domains = Some [''b.example.com''], m_pkb_domains = None\<rparr>,
      parser_js = True, pkb = None\<rparr>"

text \<open>The registry after two lookups of a hostname that no platform has registered.\<close>

definition missed_twice :: parserlist where
  "missed_twice =
     snd (get ''unknown.example.com'' None
            (snd (get ''unknown.example.com'' None (ParserList Absent))))"

text \<open>Two misses, the failure of the first append, and a third miss.\<close>

definition events_failure :: "event list" where
  "events_failure =
     [WriteMiss ''x.org'', WriteMiss ''y.org'', AppendDone 0 False, WriteMiss ''z.org'']"

section \<open>Candidate lists built by add\<close>

lemma consistent_owned:
  "consistent s \<Longrightarrow> platforms s P = Some e \<Longrightarrow> d \<in> entry_domains e \<Longrightarrow> P \<in> platform ` set (candidates s d)"
  unfolding consistent_def by blast

lemma consistent_candidate:
  "consistent s \<Longrightarrow> P \<in> platform ` set (candidates s d) \<Longrightarrow> \<exists>e. platforms s P = Some e \<and> d \<in> entry_domains e"
  unfolding consistent_def by blast

lemma candidates_nonempty:
  "x \<in> set (candidates s d) \<Longrightarrow> domains s d = Some (Candidates (candidates s d))"
  by (cases "domains s d") (auto simp: candidates_def split: domain_value.splits)

lemma consistent_domains:
  "consistent s \<Longrightarrow> domains s d = None \<or> domains s d = Some (Candidates (candidates s d))"
  by (cases "domains s d") (auto simp: consistent_def candidates_def split: domain_value.splits)

lemma consistent_props: "consistent s \<Longrightarrow> \<not> shadowed s m"
  by (simp add: consistent_def shadowed_def)

lemma add_owned:
  assumes "consistent s" "platforms s (platform p) = Some e" "d \<in> entry_domains e"
  shows "add d p s = (Inr (), s)"
proof -
  from consistent_owned[OF assms] obtain x where "x \<in> set (candidates s d)" by blast
  then have "domains s d = Some (Candidates (candidates s d))" by (rule candidates_nonempty)
  with assms show ?thesis
    by (simp add: add_def consistent_props)
qed

lemma add_new:
  assumes c: "consistent s" and n: "\<not> (\<exists>e. platforms s (platform p) = Some e \<and> d \<in> entry_domains e)"
  shows "add d p s = (Inr (), s\<lparr>domains := (domains s)(d \<mapsto> Candidates (candidates s d @ [p])),
                        platforms := (platforms s)(platform p \<mapsto>
                           (case platforms s (platform p) of
                              None \<Rightarrow> \<lparr>entry_parser = p, entry_domains = {d}\<rparr>
                            | Some e \<Rightarrow> e\<lparr>entry_domains := insert d (entry_domains e)\<rparr>))\<rparr>)"
proof (cases "domains s d")
  case None
  from c have pr: "domain_props s = {}" by (simp add: consistent_def)
  from None have cd: "candidates s d = []" by (simp add: candidates_def)
  show ?thesis
  proof (cases "platforms s (platform p)")
    case N: None
    show ?thesis using None N cd by (simp add: add_def shadowed_def Let_def pr)
  next
    case (Some e)
    with n have "d \<notin> entry_domains e" by simp
    then show ?thesis using None Some cd by (simp add: add_def shadowed_def Let_def pr)
  qed
next
  case (Some v)
  from c have pr: "domain_props s = {}" by (simp add: consistent_def)
  from Some consistent_domains[OF c, of d] have v: "domains s d = Some (Candidates (candidates s d))" by simp
  show ?thesis
  proof (cases "platforms s (platform p)")
    case None
    show ?thesis using None v by (simp add: add_def shadowed_def Let_def pr)
  next
    case (Some e)
    with n have "d \<notin> entry_domains e" by simp
    then show ?thesis using Some v by (simp add: add_def shadowed_def Let_def pr)
  qed
qed


lemma candidates_upd:
  "candidates (s\<lparr>domains := (domains s)(d \<mapsto> Candidates ps), platforms := pf\<rparr>) = (candidates s)(d := ps)"
  by (rule ext) (simp add: candidates_def)

lemma add_new_consistent:
  assumes c: "consistent s" and n: "\<not> (\<exists>e. platforms s (platform p) = Some e \<and> d \<in> entry_domains e)"
  shows "consistent (s\<lparr>domains := (domains s)(d \<mapsto> Candidates (candidates s d @ [p])),
                        platforms := (platforms s)(platform p \<mapsto>
                           (case platforms s (platform p) of
                              None \<Rightarrow> \<lparr>entry_parser = p, entry_domains = {d}\<rparr>
                            | Some e \<Rightarrow> e\<lparr>entry_domains := insert d (entry_domains e)\<rparr>))\<rparr>)"
    (is "consistent ?s'")
proof -
  have iff: "\<And>P d'. (\<exists>e. platforms s P = Some e \<and> d' \<in> entry_domains e) \<longleftrightarrow> P \<in> platform ` set (candidates s d')"
    using c unfolding consistent_def by blast
  have 1: "domain_props ?s' = {}" using c by (simp add: consistent_def)
  have 2: "\<forall>d'. domains ?s' d' \<noteq> Some Unresolved" using c by (simp add: consistent_def)
  have 3: "(\<exists>e. platforms ?s' P = Some e \<and> d' \<in> entry_domains e) \<longleftrightarrow> P \<in> platform ` set (candidates ?s' d')" for P d'
  proof (cases "P = platform p")
    case True
    show ?thesis
      using iff[of P d'] True
      by (cases "platforms s (platform p)") (auto simp: candidates_upd)
  next
    case False
    show ?thesis
      using iff[of P d'] False
      by (auto simp: candidates_upd)
  qed
  show ?thesis unfolding consistent_def using 1 2 3 by blast
qed

lemma add_consistent:
  assumes c: "consistent s"
  shows "\<exists>s'. add d p s = (Inr (), s') \<and> consistent s'
            \<and> candidates s' = (candidates s)(d := push_new (candidates s d) p)
            \<and> dom (domains s') = insert d (dom (domains s))
            \<and> missFile s' = missFile s \<and> missFile_writable s' = missFile_writable s
            \<and> missQueue s' = missQueue s \<and> pending_appends s' = pending_appends s"
proof (cases "\<exists>e. platforms s (platform p) = Some e \<and> d \<in> entry_domains e")
  case True
  then obtain e where e: "platforms s (platform p) = Some e" "d \<in> entry_domains e" by blast
  have m: "platform p \<in> platform ` set (candidates s d)" using consistent_owned[OF c e] .
  then obtain x where "x \<in> set (candidates s d)" by blast
  then have "domains s d = Some (Candidates (candidates s d))" by (rule candidates_nonempty)
  then have "d \<in> dom (domains s)" by blast
  then show ?thesis using add_owned[OF c e] c m by (auto simp: push_new_def)
next
  case False
  then have "platform p \<notin> platform ` set (candidates s d)" using consistent_candidate[OF c] by blast
  then show ?thesis
    using add_new[OF c False] add_new_consistent[OF c False]
    by (simp add: push_new_def candidates_upd)
qed


lemma ParserList_consistent: "consistent (ParserList ledger)"
  by (simp add: consistent_def ParserList_def candidates_def)

lemma add_calls_consistent:
  "consistent s \<Longrightarrow>
   \<exists>s'. add_calls calls s = (Inr (), s') \<and> consistent s'
        \<and> (\<forall>d. candidates s' d = foldl push_new (candidates s d) (map snd (filter (\<lambda>c. fst c = d) calls)))
        \<and> dom (domains s') = dom (domains s) \<union> fst ` set calls"
proof (induction calls arbitrary: s)
  case Nil
  then show ?case by simp
next
  case (Cons c calls)
  obtain d p where dp: "c = (d, p)" by (cases c)
  from add_consistent[OF Cons.prems, of d p] obtain s1 where
    s1: "add d p s = (Inr (), s1)" "consistent s1"
        "candidates s1 = (candidates s)(d := push_new (candidates s d) p)"
        "dom (domains s1) = insert d (dom (domains s))" by blast
  from Cons.IH[OF s1(2)] obtain s' where
    s': "add_calls calls s1 = (Inr (), s')" "consistent s'"
        "\<forall>d. candidates s' d = foldl push_new (candidates s1 d) (map snd (filter (\<lambda>c. fst c = d) calls))"
        "dom (domains s') = dom (domains s1) \<union> fst ` set calls" by blast
  have "add_calls (c # calls) s = (Inr (), s')" using dp s1(1) s'(1) by simp
  moreover have "\<forall>d'. candidates s' d' = foldl push_new (candidates s d') (map snd (filter (\<lambda>c. fst c = d') (c # calls)))"
    using s'(3) s1(3) dp by simp
  moreover have "dom (domains s') = dom (domains s) \<union> fst ` set (c # calls)"
    using s'(4) s1(4) dp by auto
  ultimately show ?case using s'(2) by blast
qed

lemma foldl_push_new_platforms:
  "platform ` set (foldl push_new acc bs) = platform ` set acc \<union> platform ` set bs"
  by (induction bs arbitrary: acc) (auto simp: push_new_def)

lemma foldl_push_new_distinct:
  "distinct (map platform acc) \<Longrightarrow> distinct (map platform (foldl push_new acc bs))"
  by (induction bs arbitrary: acc) (auto simp: push_new_def)

lemma registered_by_platforms:
  "platform ` set (registered_by d calls) = {P. \<exists>b. (d, b) \<in> set calls \<and> platform b = P}"
  unfolding registered_by_def foldl_push_new_platforms by force

lemma registered_by_distinct: "distinct (map platform (registered_by d calls))"
  unfolding registered_by_def by (rule foldl_push_new_distinct) simp

text \<open>
  Claim C4. After any sequence of calls of \<open>add\<close> on a new registry, no call has raised,
  and the array of a domain holds one binding for each distinct platform that added the
  domain, in the order in which the platforms first added it (\<open>registered_by\<close>): the
  platforms of the array are distinct and are exactly the platforms that added the domain.
  Adding a pair of domain and platform again changes nothing, and two distinct platforms
  that add the same domain give the array of their two bindings in that order.
\<close>

theorem add_candidate_lists:
  "\<exists>s. add_calls calls (ParserList ledger) = (Inr (), s)
     \<and> domains s d = (if d \<in> fst ` set calls then Some (Candidates (registered_by d calls)) else None)
     \<and> distinct (map platform (registered_by d calls))
     \<and> platform ` set (registered_by d calls) = {P. \<exists>b. (d, b) \<in> set calls \<and> platform b = P}
     \<and> ((\<exists>b. (d, b) \<in> set calls \<and> platform b = platform p) \<longrightarrow> add d p s = (Inr (), s))
     \<and> (platform p \<noteq> platform q \<longrightarrow>
          (\<exists>s2. add_calls [(d, p), (d, q)] (ParserList ledger) = (Inr (), s2)
              \<and> domains s2 d = Some (Candidates [p, q])))"
proof -
  from add_calls_consistent[OF ParserList_consistent, of calls ledger] obtain s where
    s: "add_calls calls (ParserList ledger) = (Inr (), s)" "consistent s"
       "\<forall>d. candidates s d = foldl push_new (candidates (ParserList ledger) d) (map snd (filter (\<lambda>c. fst c = d) calls))"
       "dom (domains s) = dom (domains (ParserList ledger)) \<union> fst ` set calls" by blast
  have cand: "candidates s d = registered_by d calls"
    using s(3) by (simp add: registered_by_def candidates_def ParserList_def)
  have dm: "dom (domains s) = fst ` set calls" using s(4) by (simp add: ParserList_def)
  have A: "domains s d = (if d \<in> fst ` set calls then Some (Candidates (registered_by d calls)) else None)"
  proof (cases "d \<in> fst ` set calls")
    case True
    then have "d \<in> dom (domains s)" using dm by simp
    then have "domains s d \<noteq> None" by blast
    with consistent_domains[OF s(2), of d] True cand show ?thesis by simp
  next
    case False
    then have "d \<notin> dom (domains s)" using dm by simp
    then have "domains s d = None" by blast
    with False show ?thesis by simp
  qed
  have B: "add d p s = (Inr (), s)" if "\<exists>b. (d, b) \<in> set calls \<and> platform b = platform p"
  proof -
    from that have "platform p \<in> platform ` set (candidates s d)"
      unfolding cand registered_by_platforms by blast
    from consistent_candidate[OF s(2) this] obtain e where
      "platforms s (platform p) = Some e" "d \<in> entry_domains e" by blast
    then show ?thesis by (rule add_owned[OF s(2)])
  qed
  have C: "\<exists>s2. add_calls [(d, p), (d, q)] (ParserList ledger) = (Inr (), s2)
              \<and> domains s2 d = Some (Candidates [p, q])" if "platform p \<noteq> platform q"
    using that by (simp add: add_def ParserList_def shadowed_def)
  show ?thesis using s(1) A B C registered_by_distinct registered_by_platforms by blast
qed


theorem add_candidate_lists_witness:
  "\<exists>s. add_calls [(''a.com'', parserA), (''a.com'', parserB), (''a.com'', parserA)] (ParserList Absent) = (Inr (), s)
      \<and> domains s ''a.com'' = Some (Candidates [parserA, parserB])
      \<and> add ''a.com'' parserB s = (Inr (), s)
      \<and> (\<exists>s2. add_calls [(''a.com'', parserB), (''a.com'', parserA)] (ParserList Absent) = (Inr (), s2)
              \<and> domains s2 ''a.com'' = Some (Candidates [parserB, parserA]))"
proof -
  let ?calls = "[(''a.com'', parserA), (''a.com'', parserB), (''a.com'', parserA)]"
  have r: "registered_by ''a.com'' ?calls = [parserA, parserB]"
    by (simp add: registered_by_def push_new_def parserA_def parserB_def)
  have m: "''a.com'' \<in> fst ` set ?calls" by simp
  have h1: "\<exists>b. (''a.com'', b) \<in> set ?calls \<and> platform b = platform parserB" by auto
  have h2: "platform parserB \<noteq> platform parserA" by (simp add: parserA_def parserB_def)
  from add_candidate_lists[of ?calls Absent "''a.com''" parserB parserA] obtain s where
    s: "add_calls ?calls (ParserList Absent) = (Inr (), s)"
       "domains s ''a.com'' = (if ''a.com'' \<in> fst ` set ?calls
                              then Some (Candidates (registered_by ''a.com'' ?calls)) else None)"
       "(\<exists>b. (''a.com'', b) \<in> set ?calls \<and> platform b = platform parserB) \<longrightarrow> add ''a.com'' parserB s = (Inr (), s)"
       "platform parserB \<noteq> platform parserA \<longrightarrow>
          (\<exists>s2. add_calls [(''a.com'', parserB), (''a.com'', parserA)] (ParserList Absent) = (Inr (), s2)
              \<and> domains s2 ''a.com'' = Some (Candidates [parserB, parserA]))"
    by blast
  from s(2) m r have "domains s ''a.com'' = Some (Candidates [parserA, parserB])" by simp
  moreover from s(3) h1 have "add ''a.com'' parserB s = (Inr (), s)" by blast
  moreover from s(4) h2 have "\<exists>s2. add_calls [(''a.com'', parserB), (''a.com'', parserA)] (ParserList Absent) = (Inr (), s2)
              \<and> domains s2 ''a.com'' = Some (Candidates [parserB, parserA])" by blast
  ultimately show ?thesis using s(1) by blast
qed

section \<open>The single writer of the ledger\<close>

lemma drain_fields:
  "missQueue (snd (drain s)) = missQueue s"
  "missFile (snd (drain s)) = missFile s"
  "pending_appends (snd (drain s)) = pending_appends s @ take 1 (missQueue s)"
  "domains (snd (drain s)) = domains s"
  "domain_props (snd (drain s)) = domain_props s"
  "platforms (snd (drain s)) = platforms s"
  "missFile_writable (snd (drain s)) = missFile_writable s"
  by (cases "missQueue s"; simp add: drain_def)+

lemma appended_snoc: "appended f (ds @ [d]) = appendFile (newline # d) (appended f ds)"
  by (simp add: appended_def)

lemma writeMiss_drained:
  assumes "drained_upto f0 all s"
  shows "drained_upto f0 (all @ [d]) (snd (writeMiss d s))"
proof -
  from assms obtain k where k: "k \<le> length all" "missQueue s = drop k all"
      "missFile s = appended f0 (take k all)" and p: "pending_appends s = take 1 (missQueue s)"
    unfolding drained_upto_def by blast
  show ?thesis
  proof (cases "missQueue s")
    case Nil
    then have "pending_appends s = []" using p by simp
    then show ?thesis using Nil k unfolding drained_upto_def
      by (auto simp: writeMiss_def drain_def Let_def intro!: exI[of _ k])
  next
    case (Cons c rest)
    then show ?thesis using k p unfolding drained_upto_def
      by (auto simp: writeMiss_def drain_def Let_def intro!: exI[of _ k])
  qed
qed

lemma appendFile_done_drained:
  assumes "drained_upto f0 all s" "appendFile_done i True s = Some (out, s')"
  shows "drained_upto f0 all s' \<and> missQueue s' = tl (missQueue s) \<and> missQueue s \<noteq> [] \<and> i = 0"
proof -
  from assms(1) obtain k where k: "k \<le> length all" "missQueue s = drop k all"
      "missFile s = appended f0 (take k all)" and p: "pending_appends s = take 1 (missQueue s)"
    unfolding drained_upto_def by blast
  from assms(2) have i: "i < length (pending_appends s)"
    by (simp add: appendFile_done_def split: if_splits)
  with p obtain c rest where q: "missQueue s = c # rest" by (cases "missQueue s") auto
  with p i have i0: "i = 0" and pc: "pending_appends s = [c]" by auto
  from q k have kl: "k < length all" by (cases "k < length all") auto
  from q k kl have c: "all ! k = c" and r: "rest = drop (Suc k) all"
    by (simp_all add: Cons_nth_drop_Suc[symmetric])
  have f: "appendFile (newline # c) (missFile s) = appended f0 (take (Suc k) all)"
    using k(3) c kl by (simp add: take_Suc_conv_app_nth appended_snoc)
  from assms(2) i0 pc q have s': "s' = snd (drain (s\<lparr>pending_appends := [],
      missFile := appendFile (newline # c) (missFile s), missQueue := rest\<rparr>))"
    by (auto simp: appendFile_done_def Let_def)
  have "drained_upto f0 all s'"
    unfolding drained_upto_def s' drain_fields using f r kl
    by (auto intro!: exI[of _ "Suc k"])
  moreover have "missQueue s' = tl (missQueue s)"
    unfolding s' drain_fields using q by simp
  ultimately show ?thesis using q i0 by simp
qed


lemma ParserList_drained: "drained_upto ledger [] (ParserList ledger)"
  by (simp add: drained_upto_def ParserList_def appended_def)

lemma run_drained:
  "list_all succeeds evs \<Longrightarrow> drained_upto f0 all s \<Longrightarrow> run evs s = Some s'
   \<Longrightarrow> drained_upto f0 (all @ enqueued evs) s'"
proof (induction evs arbitrary: s all)
  case Nil
  then show ?case by simp
next
  case (Cons ev evs)
  show ?case
  proof (cases ev)
    case (WriteMiss d)
    from Cons.prems(3) WriteMiss have r: "run evs (snd (writeMiss d s)) = Some s'" by simp
    from Cons.prems(1) have l: "list_all succeeds evs" by simp
    from Cons.IH[OF l writeMiss_drained[OF Cons.prems(2)] r] WriteMiss show ?thesis by simp
  next
    case (AppendDone i ok)
    with Cons.prems(1) have ok: "ok" and l: "list_all succeeds evs" by simp_all
    from Cons.prems(3) AppendDone ok obtain out s1 where
      a: "appendFile_done i True s = Some (out, s1)" and r: "run evs s1 = Some s'"
      by (cases "appendFile_done i True s") auto
    from appendFile_done_drained[OF Cons.prems(2) a] have "drained_upto f0 all s1" by simp
    from Cons.IH[OF l this r] AppendDone show ?thesis by simp
  qed
qed

lemma step_pending:
  assumes "length (pending_appends s) \<le> 1 \<and> (pending_appends s \<noteq> [] \<longrightarrow> missQueue s \<noteq> [])"
    and "step ev s = Some s'"
  shows "length (pending_appends s') \<le> 1 \<and> (pending_appends s' \<noteq> [] \<longrightarrow> missQueue s' \<noteq> [])"
proof (cases ev)
  case (WriteMiss d)
  with assms show ?thesis
    by (cases "missQueue s"; cases "pending_appends s") (auto simp: writeMiss_def drain_def Let_def)
next
  case (AppendDone i ok)
  with assms(2) obtain out where a: "appendFile_done i ok s = Some (out, s')"
    by (cases "appendFile_done i ok s") auto
  then have i: "i < length (pending_appends s)" by (simp add: appendFile_done_def split: if_splits)
  with assms(1) obtain c where c: "pending_appends s = [c]" "i = 0"
    by (cases "pending_appends s") auto
  from a c show ?thesis
    by (cases ok; cases "tl (missQueue s)") (auto simp: appendFile_done_def Let_def drain_def)
qed

lemma run_pending:
  "length (pending_appends s) \<le> 1 \<and> (pending_appends s \<noteq> [] \<longrightarrow> missQueue s \<noteq> [])
   \<Longrightarrow> run evs s = Some s' \<Longrightarrow> length (pending_appends s') \<le> 1"
proof (induction evs arbitrary: s)
  case Nil
  then show ?case by simp
next
  case (Cons ev evs)
  from Cons.prems(2) obtain s1 where s1: "step ev s = Some s1" "run evs s1 = Some s'"
    by (cases "step ev s") auto
  from Cons.IH[OF step_pending[OF Cons.prems(1) s1(1)] s1(2)] show ?case .
qed

lemma drain_rest:
  "drained_upto f0 all s \<Longrightarrow> n = length (missQueue s) \<Longrightarrow>
   \<exists>s'. run (replicate n (AppendDone 0 True)) s = Some s' \<and> missQueue s' = []
       \<and> pending_appends s' = [] \<and> missFile s' = appended f0 all"
proof (induction n arbitrary: s)
  case 0
  then have q: "missQueue s = []" by simp
  from "0.prems"(1) obtain k where k: "k \<le> length all" "missQueue s = drop k all"
      "missFile s = appended f0 (take k all)" and p: "pending_appends s = take 1 (missQueue s)"
    unfolding drained_upto_def by blast
  from k q have "take k all = all" by simp
  with k p q show ?case by simp
next
  case (Suc n)
  then obtain c rest where q: "missQueue s = c # rest" by (cases "missQueue s") auto
  from Suc.prems(1) have p: "pending_appends s = take 1 (missQueue s)"
    unfolding drained_upto_def by blast
  with q have "0 < length (pending_appends s)" by simp
  then obtain out s1 where a: "appendFile_done 0 True s = Some (out, s1)"
    by (cases "appendFile_done 0 True s") (auto simp: appendFile_done_def Let_def)
  from appendFile_done_drained[OF Suc.prems(1) a]
  have d: "drained_upto f0 all s1" and t: "missQueue s1 = tl (missQueue s)" by simp_all
  from t Suc.prems(2) have "n = length (missQueue s1)" by simp
  from Suc.IH[OF d this] obtain s' where
    "run (replicate n (AppendDone 0 True)) s1 = Some s'" "missQueue s' = []"
    "pending_appends s' = []" "missFile s' = appended f0 all" by blast
  with a show ?case by auto
qed

text \<open>
  Claim C8, amended. Take a registry whose queue is empty and which has no append
  pending (a new registry, for one), and any interleaving of calls of \<open>writeMiss\<close> and of
  completions of appends, with no call of \<open>init\<close> among them. Then at most one append is
  pending, whether appends fail or not. A call of \<open>writeMiss\<close> runs the drain loop exactly
  when the queue was empty before it, and otherwise returns at once and starts no
  append. When no append fails, the ledger is the initial ledger followed by a prefix of
  the enqueued hostnames, one whole line each, in the order of the calls, the queue
  holds the remaining ones, and the completions of the remaining appends leave the queue
  empty and the ledger with every enqueued hostname appended exactly once.
\<close>

theorem writeMiss_single_writer:
  assumes "missQueue s0 = []" "pending_appends s0 = []" "run evs s0 = Some s"
  shows "length (pending_appends s) \<le> 1
       \<and> fst (writeMiss d s) = (if missQueue s = [] then Suspended else Resolved)
       \<and> (missQueue s \<noteq> [] \<longrightarrow> pending_appends (snd (writeMiss d s)) = pending_appends s)
       \<and> (list_all succeeds evs \<longrightarrow>
            (\<exists>k\<le>length (enqueued evs). missQueue s = drop k (enqueued evs)
                 \<and> missFile s = appended (missFile s0) (take k (enqueued evs)))
            \<and> (\<exists>s'. run (replicate (length (missQueue s)) (AppendDone 0 True)) s = Some s'
                 \<and> missQueue s' = [] \<and> pending_appends s' = []
                 \<and> missFile s' = appended (missFile s0) (enqueued evs)))"
proof -
  have 1: "length (pending_appends s) \<le> 1"
    by (rule run_pending[OF _ assms(3)]) (simp add: assms(2))
  have 2: "fst (writeMiss d s) = (if missQueue s = [] then Suspended else Resolved)"
    by (cases "missQueue s") (simp_all add: writeMiss_def drain_def)
  have 3: "missQueue s \<noteq> [] \<longrightarrow> pending_appends (snd (writeMiss d s)) = pending_appends s"
    by (cases "missQueue s") (simp_all add: writeMiss_def)
  have 4: "(\<exists>k\<le>length (enqueued evs). missQueue s = drop k (enqueued evs)
                 \<and> missFile s = appended (missFile s0) (take k (enqueued evs)))
            \<and> (\<exists>s'. run (replicate (length (missQueue s)) (AppendDone 0 True)) s = Some s'
                 \<and> missQueue s' = [] \<and> pending_appends s' = []
                 \<and> missFile s' = appended (missFile s0) (enqueued evs))" if "list_all succeeds evs"
  proof -
    have "drained_upto (missFile s0) [] s0"
      using assms(1,2) by (simp add: drained_upto_def appended_def)
    from run_drained[OF that this assms(3)]
    have d: "drained_upto (missFile s0) (enqueued evs) s" by simp
    from drain_rest[OF d refl] d show ?thesis unfolding drained_upto_def by blast
  qed
  from 1 2 3 4 show ?thesis by blast
qed

theorem writeMiss_single_writer_witness:
  "missQueue (ParserList Absent) = [] \<and> pending_appends (ParserList Absent) = []
   \<and> list_all succeeds events_xyz
   \<and> (\<exists>s. run events_xyz (ParserList Absent) = Some s
        \<and> length (pending_appends s) \<le> 1
        \<and> missQueue s = [''y.org'', ''z.org'']
        \<and> fst (writeMiss ''w.org'' s) = Resolved
        \<and> pending_appends (snd (writeMiss ''w.org'' s)) = pending_appends s
        \<and> (\<exists>s'. run [AppendDone 0 True, AppendDone 0 True] s = Some s' \<and> missQueue s' = []
              \<and> missFile s' = Content (newline # ''x.org'' @ newline # ''y.org'' @ newline # ''z.org'')))"
proof -
  let ?s = "the (run events_xyz (ParserList Absent))"
  have r: "run events_xyz (ParserList Absent) = Some ?s"
    by (simp add: events_xyz_def ParserList_def writeMiss_def drain_def appendFile_done_def Let_def)
  have l: "list_all succeeds events_xyz" by (simp add: events_xyz_def)
  have q: "missQueue ?s = [''y.org'', ''z.org'']"
    by (simp add: events_xyz_def ParserList_def writeMiss_def drain_def appendFile_done_def Let_def)
  have e: "enqueued events_xyz = [''x.org'', ''y.org'', ''z.org'']" by (simp add: events_xyz_def)
  have a: "appended Absent [''x.org'', ''y.org'', ''z.org'']
             = Content (newline # ''x.org'' @ newline # ''y.org'' @ newline # ''z.org'')"
    by (simp add: appended_def appendFile_def)
  have n: "replicate (length (missQueue ?s)) (AppendDone 0 True) = [AppendDone 0 True, AppendDone 0 True]"
    unfolding q by (simp add: numeral_2_eq_2)
  have z: "missQueue (ParserList Absent) = []" "pending_appends (ParserList Absent) = []"
    "missFile (ParserList Absent) = Absent"
    by (simp_all add: ParserList_def)
  from writeMiss_single_writer[OF z(1,2) r, of "''w.org''"] l
  show ?thesis unfolding n e z(3) a using r q z(1,2) by auto
qed

text \<open>
  Claim C8 as stated fails. \<open>init\<close> replaces the queue by a new empty array while the
  drain loop of an earlier miss is still suspended at its append; the next miss then
  finds a queue of length 1 and starts a drain loop of its own, so that two appends are
  pending at the same time. And after an append has failed, the hostnames enqueued
  behind it stay in the queue with no append pending, and the ledger never receives
  them.
\<close>

theorem init_during_append_gives_two_pending_appends:
  "pending_appends (snd (writeMiss ''x.org'' (ParserList Absent))) = [''x.org'']
   \<and> fst (init extract_none ''/ezpaarse/platforms'' (Some [])
             (snd (writeMiss ''x.org'' (ParserList Absent)))) = Inr ()
   \<and> pending_appends
        (snd (writeMiss ''z.org''
           (snd (init extract_none ''/ezpaarse/platforms'' (Some [])
                   (snd (writeMiss ''x.org'' (ParserList Absent)))))))
       = [''x.org'', ''z.org'']
   \<and> map_option missQueue (run events_failure (ParserList Absent)) = Some [''y.org'', ''z.org'']
   \<and> map_option pending_appends (run events_failure (ParserList Absent)) = Some []
   \<and> map_option missFile (run events_failure (ParserList Absent)) = Some Absent"
  by (simp add: init_def init_missing_domains_def missFileContent_def trim_def writeFile_def
        array_sort_def events_failure_def ParserList_def writeMiss_def drain_def
        appendFile_done_def Let_def)

section \<open>Reconciliation of the ledger by init\<close>

lemma string_gt_asym: "string_gt a b \<Longrightarrow> \<not> string_gt b a"
  by (induction a b rule: string_gt.induct) (auto split: if_splits)

lemma string_le_trans: "\<not> string_gt a b \<Longrightarrow> \<not> string_gt b c \<Longrightarrow> \<not> string_gt a c"
proof (induction a arbitrary: b c)
  case Nil
  then show ?case by simp
next
  case (Cons x a)
  show ?case
  proof (cases b)
    case Nil
    with Cons.prems show ?thesis by simp
  next
    case B: (Cons y b')
    show ?thesis
    proof (cases c)
      case Nil
      with Cons.prems B show ?thesis by simp
    next
      case C: (Cons z c')
      with Cons.prems B Cons.IH[of b' c'] show ?thesis
        by (auto split: if_splits)
    qed
  qed
qed

lemma ci_le_trans: "ci_le a b \<Longrightarrow> ci_le b c \<Longrightarrow> ci_le a c"
  unfolding ci_le_def by (rule string_le_trans)

lemma ci_le_total: "\<not> ci_le a b \<Longrightarrow> ci_le b a"
  unfolding ci_le_def using string_gt_asym by blast

lemma set_insert_by: "set (insert_by f x ys) = insert x (set ys)"
  by (induction ys) auto

lemma distinct_insert_by: "distinct (insert_by f x ys) = (x \<notin> set ys \<and> distinct ys)"
  by (induction ys) (auto simp: set_insert_by)

lemma sorted_insert_by:
  "sorted_wrt ci_le ys \<Longrightarrow> sorted_wrt ci_le (insert_by miss_compare x ys)"
proof (induction ys)
  case Nil
  then show ?case by simp
next
  case (Cons y ys)
  show ?case
  proof (cases "miss_compare x y > 0")
    case True
    then have "\<not> ci_le x y" by (simp add: miss_compare_def ci_le_def split: if_splits)
    then have "ci_le y x" by (rule ci_le_total)
    with Cons True show ?thesis by (auto simp: set_insert_by)
  next
    case False
    then have xy: "ci_le x y" by (simp add: miss_compare_def ci_le_def split: if_splits)
    with Cons.prems have "\<forall>z\<in>set ys. ci_le x z" using ci_le_trans by auto
    with Cons.prems False xy show ?thesis by simp
  qed
qed

lemma set_foldl_insert_by:
  "set (foldl (\<lambda>sorted x. insert_by f x sorted) acc xs) = set acc \<union> set xs"
  by (induction xs arbitrary: acc) (auto simp: set_insert_by)

lemma distinct_foldl_insert_by:
  "distinct (foldl (\<lambda>sorted x. insert_by f x sorted) acc xs)
     = (distinct acc \<and> distinct xs \<and> set acc \<inter> set xs = {})"
  by (induction xs arbitrary: acc) (auto simp: distinct_insert_by set_insert_by)

lemma sorted_foldl_insert_by:
  "sorted_wrt ci_le acc \<Longrightarrow>
   sorted_wrt ci_le (foldl (\<lambda>sorted x. insert_by miss_compare x sorted) acc xs)"
  by (induction xs arbitrary: acc) (auto intro: sorted_insert_by)

lemma set_array_sort: "set (array_sort f xs) = set xs"
  unfolding array_sort_def by (simp add: set_foldl_insert_by)

lemma distinct_array_sort: "distinct (array_sort f xs) = distinct xs"
  unfolding array_sort_def by (simp add: distinct_foldl_insert_by)

lemma sorted_array_sort: "sorted_wrt ci_le (array_sort miss_compare xs)"
  unfolding array_sort_def by (rule sorted_foldl_insert_by) simp

text \<open>Two lines that differ in case alone end in the reverse of their order in the file.\<close>

lemma array_sort_case_ties:
  "array_sort miss_compare [''A.com'', ''a.com''] = [''a.com'', ''A.com'']"
  by (simp add: array_sort_def miss_compare_def toLowerCase_def lower_char_def)

lemma set_unseen: "set (unseen m ls) = {l \<in> set ls. m l = None}"
  by (induction ls arbitrary: m) auto

lemma distinct_unseen: "distinct (unseen m ls)"
  by (induction ls arbitrary: m) (auto simp: set_unseen)

lemma filter_addMiss_unseen:
  "\<not> shadowed s ''has'' \<Longrightarrow> \<not> shadowed s ''set'' \<Longrightarrow>
   filter_addMiss ls s = (Inr (unseen (domains s) ls), s\<lparr>domains := mark_unseen (domains s) ls\<rparr>)"
proof (induction ls arbitrary: s)
  case Nil
  then show ?case by simp
next
  case (Cons l ls)
  show ?case
  proof (cases "domains s l")
    case None
    let ?s1 = "s\<lparr>domains := (domains s)(l \<mapsto> Unresolved)\<rparr>"
    have a: "addMiss l s = (Inr True, ?s1)" using None Cons.prems by (simp add: addMiss_def)
    have sh: "\<not> shadowed ?s1 ''has''" "\<not> shadowed ?s1 ''set''" using Cons.prems by (simp_all add: shadowed_def)
    have eq: "(\<lambda>a. if a = l then Some Unresolved else domains s a) = (domains s)(l \<mapsto> Unresolved)"
      by (rule ext) simp
    from Cons.IH[OF sh]
    have ih: "filter_addMiss ls ?s1 = (Inr (unseen ((domains s)(l \<mapsto> Unresolved)) ls),
                s\<lparr>domains := mark_unseen ((domains s)(l \<mapsto> Unresolved)) ls\<rparr>)"
      by (simp add: eq)
    show ?thesis using a None by (simp add: ih)
  next
    case (Some v)
    have a: "addMiss l s = (Inr False, s)" using Some Cons.prems by (simp add: addMiss_def)
    from Cons.IH[OF Cons.prems] a Some show ?thesis by simp
  qed
qed

lemma split_nl_nonempty: "split_nl c \<noteq> []"
  by (induction c) (auto split: list.splits)

lemma split_nl_no_newline: "l \<in> set (split_nl c) \<Longrightarrow> newline \<notin> set l"
proof (induction c arbitrary: l)
  case Nil
  then show ?case by simp
next
  case (Cons x c)
  then show ?case
    by (cases "split_nl c") (auto simp: split_nl_nonempty split: if_splits)
qed

lemma split_nl_line: "newline \<notin> set a \<Longrightarrow> split_nl (a @ newline # b) = a # split_nl b"
  by (induction a) auto

lemma split_nl_plain: "newline \<notin> set a \<Longrightarrow> split_nl a = [a]"
  by (induction a) auto

lemma split_nl_join_nl:
  "ls \<noteq> [] \<Longrightarrow> \<forall>l\<in>set ls. newline \<notin> set l \<Longrightarrow> split_nl (join_nl ls) = ls"
proof (induction ls rule: join_nl.induct)
  case 1
  then show ?case by simp
next
  case (2 l)
  then show ?case by (simp add: split_nl_plain)
next
  case (3 l v va)
  then show ?case by (simp add: split_nl_line)
qed

lemma init_missing_domains_result:
  assumes "\<not> shadowed s ''has''" "\<not> shadowed s ''set''" "missFile s \<noteq> Unreadable"
    "missFile_writable s" "split_nl (missFileContent (missFile s)) = first # lines"
  shows "init_missing_domains s =
           (Inr (), s\<lparr>domains := mark_unseen (domains s) lines,
                      missFile := Content (''domain'' @ newline #
                          join_nl (array_sort miss_compare (unseen (domains s) lines))),
                      missFile_writes := missFile_writes s
                          @ (if trim first \<noteq> ''domain'' then [''domain''] else [])
                          @ [''domain'' @ newline #
                               join_nl (array_sort miss_compare (unseen (domains s) lines))]\<rparr>)"
proof -
  let ?s1 = "if trim first \<noteq> ''domain'' then writeFile ''domain'' s else s"
  have sh: "\<not> shadowed ?s1 ''has''" "\<not> shadowed ?s1 ''set''"
    using assms(1,2) by (simp_all add: shadowed_def writeFile_def)
  have d: "domains ?s1 = domains s" by (simp add: writeFile_def)
  have f: "filter_addMiss lines ?s1 = (Inr (unseen (domains s) lines), ?s1\<lparr>domains := mark_unseen (domains s) lines\<rparr>)"
    using filter_addMiss_unseen[OF sh, of lines] unfolding d .
  show ?thesis
    using assms(3,4,5) f
    by (cases "missFile s") (simp_all add: init_missing_domains_def Let_def writeFile_def)
qed

lemma kept_lines:
  "set (array_sort miss_compare (unseen m lines)) = {l \<in> set lines. m l = None}"
  "distinct (array_sort miss_compare (unseen m lines))"
  "sorted_wrt ci_le (array_sort miss_compare (unseen m lines))"
  by (simp_all add: set_array_sort set_unseen distinct_array_sort distinct_unseen sorted_array_sort)

lemma header_then_lines:
  assumes "kept \<noteq> []" "\<forall>l\<in>set kept. newline \<notin> set l"
  shows "split_nl (''domain'' @ newline # join_nl kept) = ''domain'' # kept"
proof -
  have "newline \<notin> set ''domain''" by (simp add: newline_def)
  then have "split_nl (''domain'' @ newline # join_nl kept) = ''domain'' # split_nl (join_nl kept)"
    by (rule split_nl_line)
  with split_nl_join_nl[OF assms] show ?thesis by simp
qed

text \<open>
  Claim C6. When the first line of the ledger is the header (after \<open>trim\<close>), the second
  half of \<open>init\<close> writes the ledger once, as the header line followed by the kept lines:
  the lines after the first that have no entry in the domain map, which are those that
  no platform has registered (each one once), in ascending case-insensitive order. Read
  back line by line, the file is the header followed by exactly these lines.
\<close>

theorem reconciliation_keeps_unregistered_sorted:
  assumes "\<not> shadowed s ''has''" "\<not> shadowed s ''set''" "missFile_writable s"
    and "missFile s = Content c" "split_nl c = first # lines" "trim first = ''domain''"
  shows "\<exists>s' kept. init_missing_domains s = (Inr (), s')
           \<and> missFile s' = Content (''domain'' @ newline # join_nl kept)
           \<and> missFile_writes s' = missFile_writes s @ [''domain'' @ newline # join_nl kept]
           \<and> set kept = {l \<in> set lines. domains s l = None}
           \<and> distinct kept \<and> sorted_wrt ci_le kept
           \<and> (kept \<noteq> [] \<longrightarrow> split_nl (''domain'' @ newline # join_nl kept) = ''domain'' # kept)"
proof -
  let ?kept = "array_sort miss_compare (unseen (domains s) lines)"
  have u: "missFile s \<noteq> Unreadable" using assms(4) by simp
  have sp: "split_nl (missFileContent (missFile s)) = first # lines"
    using assms(4,5) by (simp add: missFileContent_def)
  note r = init_missing_domains_result[OF assms(1,2) u assms(3) sp]
  have tf: "(if trim first \<noteq> ''domain'' then [''domain''] else []) = []" using assms(6) by simp
  have nl: "\<forall>l\<in>set ?kept. newline \<notin> set l"
  proof
    fix l assume "l \<in> set ?kept"
    then have "l \<in> set lines" by (simp add: kept_lines(1))
    then have "l \<in> set (split_nl c)" using assms(5) by simp
    then show "newline \<notin> set l" by (rule split_nl_no_newline)
  qed
  have "?kept \<noteq> [] \<longrightarrow> split_nl (''domain'' @ newline # join_nl ?kept) = ''domain'' # ?kept"
    using header_then_lines[OF _ nl] by blast
  with r[unfolded tf] kept_lines[of "domains s" lines] show ?thesis
    by (intro exI[of _ "snd (init_missing_domains s)"] exI[of _ ?kept]) simp
qed

lemma singleton_list: "distinct xs \<Longrightarrow> set xs = {x} \<Longrightarrow> xs = [x]"
proof (cases xs)
  case Nil
  assume "set xs = {x}" with Nil show ?thesis by simp
next
  case (Cons y ys)
  assume d: "distinct xs" and s: "set xs = {x}"
  from s Cons have y: "y = x" by auto
  from d s Cons y have "ys = []" by (cases ys) auto
  with Cons y show ?thesis by simp
qed

theorem reconciliation_keeps_unregistered_sorted_witness:
  "\<not> shadowed registry_a ''has'' \<and> \<not> shadowed registry_a ''set'' \<and> missFile_writable registry_a
   \<and> missFile registry_a = Content (''domain'' @ newline # ''a.com'' @ newline # ''b.com'')
   \<and> split_nl (''domain'' @ newline # ''a.com'' @ newline # ''b.com'') = [''domain'', ''a.com'', ''b.com'']
   \<and> trim ''domain'' = ''domain''
   \<and> domains registry_a ''a.com'' = Some (Candidates [parserA])
   \<and> domains registry_a ''b.com'' = None
   \<and> (\<exists>s'. init_missing_domains registry_a = (Inr (), s')
          \<and> missFile s' = Content (''domain'' @ newline # ''b.com'')
          \<and> split_nl (''domain'' @ newline # ''b.com'') = [''domain'', ''b.com''])"
proof -
  have h1: "\<not> shadowed registry_a ''has''" and h2: "\<not> shadowed registry_a ''set''"
    and h3: "missFile_writable registry_a"
    and h4: "missFile registry_a = Content (''domain'' @ newline # ''a.com'' @ newline # ''b.com'')"
    and da: "domains registry_a ''a.com'' = Some (Candidates [parserA])"
    and db: "domains registry_a ''b.com'' = None"
    by (simp_all add: registry_a_def ledger_ab_def add_def ParserList_def shadowed_def)
  have h5: "split_nl (''domain'' @ newline # ''a.com'' @ newline # ''b.com'') = [''domain'', ''a.com'', ''b.com'']"
    by (simp add: newline_def)
  have h6: "trim ''domain'' = ''domain''" by (simp add: trim_def white_space_def)
  from reconciliation_keeps_unregistered_sorted[OF h1 h2 h3 h4 h5 h6] obtain s' kept where
    kk: "init_missing_domains registry_a = (Inr (), s')
       \<and> missFile s' = Content (''domain'' @ newline # join_nl kept)
       \<and> missFile_writes s' = missFile_writes registry_a @ [''domain'' @ newline # join_nl kept]
       \<and> set kept = {l \<in> set [''a.com'', ''b.com'']. domains registry_a l = None}
       \<and> distinct kept \<and> sorted_wrt ci_le kept
       \<and> (kept \<noteq> [] \<longrightarrow> split_nl (''domain'' @ newline # join_nl kept) = ''domain'' # kept)"
    by (elim exE)
  note k = kk[THEN conjunct1] kk[THEN conjunct2, THEN conjunct1]
    kk[THEN conjunct2, THEN conjunct2, THEN conjunct2, THEN conjunct1]
    kk[THEN conjunct2, THEN conjunct2, THEN conjunct2, THEN conjunct2, THEN conjunct1]
  have "{l \<in> set [''a.com'', ''b.com'']. domains registry_a l = None} = {''b.com''}"
    by (rule set_eqI) (use da db in force)
  with k(3) have "set kept = {''b.com''}" by simp
  with k(4) have kb: "kept = [''b.com'']" by (rule singleton_list)
  have f: "missFile s' = Content (''domain'' @ newline # ''b.com'')" using k(2) kb by simp
  have h7: "split_nl (''domain'' @ newline # ''b.com'') = [''domain'', ''b.com'']"
    by (simp add: newline_def)
  from k(1) f h7 have "\<exists>s'. init_missing_domains registry_a = (Inr (), s')
          \<and> missFile s' = Content (''domain'' @ newline # ''b.com'')
          \<and> split_nl (''domain'' @ newline # ''b.com'') = [''domain'', ''b.com'']" by blast
  with h1 h2 h3 h4 h5 h6 da db show ?thesis by blast
qed

text \<open>
  The example of the specification through the whole of \<open>init\<close>: the platform directory
  registers \<open>a.com\<close>, and the ledger with the lines \<open>domain\<close>, \<open>a.com\<close>, \<open>b.com\<close> is left with
  the lines \<open>domain\<close>, \<open>b.com\<close>.
\<close>

lemma init_reconciles_example:
  "fst (init extract_none ''/ezpaarse/platforms'' (Some [dir_a]) (ParserList ledger_ab)) = Inr ()
   \<and> missFile (snd (init extract_none ''/ezpaarse/platforms'' (Some [dir_a]) (ParserList ledger_ab)))
       = Content (''domain'' @ newline # ''b.com'')
   \<and> domains (snd (init extract_none ''/ezpaarse/platforms'' (Some [dir_a]) (ParserList ledger_ab)))
         ''a.com''
       = Some (Candidates [parserA])"
  by (simp add: init_def ParserList_def ledger_ab_def dir_a_def startsWith_dot_def addDomainsOf_def
        falsy_def add_def shadowed_def init_missing_domains_def missFileContent_def newline_def
        trim_def white_space_def addMiss_def array_sort_def path_resolve_def parserA_def Let_def
        writeFile_def)

lemma join_nl_empty: "distinct ks \<Longrightarrow> join_nl ks = [] \<longleftrightarrow> (\<forall>l\<in>set ks. l = [])"
proof (induction ks rule: join_nl.induct)
  case 1
  then show ?case by simp
next
  case (2 l)
  then show ?case by simp
next
  case (3 l v va)
  then show ?case by auto
qed

text \<open>
  Claim C7, amended. When the first line of the ledger is not the header (an empty or a
  missing file included), the second half of \<open>init\<close> first resets the file to the header
  alone and then goes on as it does for a ledger with a header: it drops the first line
  and rewrites the file as the header line followed by the kept lines, which are the
  lines after the first without an entry in the domain map, each one once, in ascending
  case-insensitive order. The first line of the result is the header, and the result is
  the header line alone, followed by a line feed, exactly when every kept line is empty:
  in particular when no line is kept, as for an empty or a missing file.
\<close>

theorem reconciliation_header_repair:
  assumes "\<not> shadowed s ''has''" "\<not> shadowed s ''set''" "missFile_writable s"
    and "missFile s \<noteq> Unreadable" "split_nl (missFileContent (missFile s)) = first # lines"
    and "trim first \<noteq> ''domain''"
  shows "\<exists>s' kept. init_missing_domains s = (Inr (), s')
           \<and> missFile_writes s' = missFile_writes s
                 @ [''domain'', ''domain'' @ newline # join_nl kept]
           \<and> missFile s' = Content (''domain'' @ newline # join_nl kept)
           \<and> hd (split_nl (''domain'' @ newline # join_nl kept)) = ''domain''
           \<and> set kept = {l \<in> set lines. domains s l = None}
           \<and> distinct kept \<and> sorted_wrt ci_le kept
           \<and> (missFile s' = Content (''domain'' @ [newline]) \<longleftrightarrow> (\<forall>l\<in>set kept. l = []))"
proof -
  let ?kept = "array_sort miss_compare (unseen (domains s) lines)"
  note r = init_missing_domains_result[OF assms(1,2,4,3,5)]
  have tf: "(if trim first \<noteq> ''domain'' then [''domain''] else []) = [''domain'']"
    using assms(6) by simp
  have "newline \<notin> set ''domain''" by (simp add: newline_def)
  then have "split_nl (''domain'' @ newline # join_nl ?kept) = ''domain'' # split_nl (join_nl ?kept)"
    by (rule split_nl_line)
  then have h: "hd (split_nl (''domain'' @ newline # join_nl ?kept)) = ''domain''"
    by (simp only: list.sel)
  have e: "join_nl ?kept = [] \<longleftrightarrow> (\<forall>l\<in>set ?kept. l = [])"
    by (rule join_nl_empty) (rule kept_lines(2))
  have f: "missFile (snd (init_missing_domains s)) = Content (''domain'' @ [newline])
             \<longleftrightarrow> (\<forall>l\<in>set ?kept. l = [])"
    unfolding e[symmetric] using r by simp
  from r[unfolded tf] h kept_lines[of "domains s" lines] f show ?thesis
    by (intro exI[of _ "snd (init_missing_domains s)"] exI[of _ ?kept]) simp
qed

theorem reconciliation_header_repair_witness:
  "\<not> shadowed (ParserList ledger_corrupt) ''has'' \<and> \<not> shadowed (ParserList ledger_corrupt) ''set''
   \<and> missFile_writable (ParserList ledger_corrupt)
   \<and> missFile (ParserList ledger_corrupt) \<noteq> Unreadable
   \<and> split_nl (missFileContent (missFile (ParserList ledger_corrupt))) = [''foo'', ''b.com'']
   \<and> trim ''foo'' \<noteq> ''domain''
   \<and> (\<exists>s'. init_missing_domains (ParserList ledger_corrupt) = (Inr (), s')
          \<and> missFile_writes s' = [''domain'', ''domain'' @ newline # ''b.com'']
          \<and> missFile s' = Content (''domain'' @ newline # ''b.com''))
   \<and> split_nl (missFileContent (missFile (ParserList (Content [])))) = [[]]
   \<and> trim [] \<noteq> ''domain''
   \<and> (\<exists>s'. init_missing_domains (ParserList (Content [])) = (Inr (), s')
          \<and> missFile s' = Content (''domain'' @ [newline]))"
proof -
  let ?s = "ParserList ledger_corrupt"
  have h1: "\<not> shadowed ?s ''has''" and h2: "\<not> shadowed ?s ''set''" and h3: "missFile_writable ?s"
    and h4: "missFile ?s \<noteq> Unreadable" and d: "domains ?s ''b.com'' = None" "domains ?s ''foo'' = None"
    by (simp_all add: ParserList_def shadowed_def ledger_corrupt_def)
  have h5: "split_nl (missFileContent (missFile ?s)) = [''foo'', ''b.com'']"
    by (simp add: ParserList_def ledger_corrupt_def missFileContent_def newline_def)
  have h6: "trim ''foo'' \<noteq> ''domain''" by (simp add: trim_def white_space_def)
  from reconciliation_header_repair[OF h1 h2 h3 h4 h5 h6] obtain s' kept where
    kk: "init_missing_domains ?s = (Inr (), s')
       \<and> missFile_writes s' = missFile_writes ?s
             @ [''domain'', ''domain'' @ newline # join_nl kept]
       \<and> missFile s' = Content (''domain'' @ newline # join_nl kept)
       \<and> hd (split_nl (''domain'' @ newline # join_nl kept)) = ''domain''
       \<and> set kept = {l \<in> set [''b.com'']. domains ?s l = None}
       \<and> distinct kept \<and> sorted_wrt ci_le kept
       \<and> (missFile s' = Content (''domain'' @ [newline]) \<longleftrightarrow> (\<forall>l\<in>set kept. l = []))"
    by (elim exE)
  note k = kk[THEN conjunct1] kk[THEN conjunct2, THEN conjunct2, THEN conjunct1]
    kk[THEN conjunct2, THEN conjunct2, THEN conjunct2, THEN conjunct2, THEN conjunct1]
    kk[THEN conjunct2, THEN conjunct2, THEN conjunct2, THEN conjunct2, THEN conjunct2, THEN conjunct1]
    kk[THEN conjunct2, THEN conjunct1]
  have "{l \<in> set [''b.com'']. domains ?s l = None} = {''b.com''}"
    by (rule set_eqI) (use d in force)
  with k(3) have "set kept = {''b.com''}" by simp
  with k(4) have "kept = [''b.com'']" by (rule singleton_list)
  with k(1,2,5) have A: "\<exists>s'. init_missing_domains ?s = (Inr (), s')
          \<and> missFile_writes s' = [''domain'', ''domain'' @ newline # ''b.com'']
          \<and> missFile s' = Content (''domain'' @ newline # ''b.com'')"
    by (simp add: ParserList_def)
  let ?e = "ParserList (Content [])"
  have e1: "\<not> shadowed ?e ''has''" and e2: "\<not> shadowed ?e ''set''" and e3: "missFile_writable ?e"
    and e4: "missFile ?e \<noteq> Unreadable"
    by (simp_all add: ParserList_def shadowed_def)
  have e5: "split_nl (missFileContent (missFile ?e)) = [[]]"
    by (simp add: ParserList_def missFileContent_def)
  have e6: "trim [] \<noteq> ''domain''" by (simp add: trim_def)
  from reconciliation_header_repair[OF e1 e2 e3 e4 e5 e6] obtain t kept' where
    ee: "init_missing_domains ?e = (Inr (), t)
       \<and> missFile_writes t = missFile_writes ?e
             @ [''domain'', ''domain'' @ newline # join_nl kept']
       \<and> missFile t = Content (''domain'' @ newline # join_nl kept')
       \<and> hd (split_nl (''domain'' @ newline # join_nl kept')) = ''domain''
       \<and> set kept' = {l \<in> set []. domains ?e l = None}
       \<and> distinct kept' \<and> sorted_wrt ci_le kept'
       \<and> (missFile t = Content (''domain'' @ [newline]) \<longleftrightarrow> (\<forall>l\<in>set kept'. l = []))"
    by (elim exE)
  have "set kept' = {}"
    using ee[THEN conjunct2, THEN conjunct2, THEN conjunct2, THEN conjunct2, THEN conjunct1]
    by simp
  then have "missFile t = Content (''domain'' @ [newline])"
    using ee[THEN conjunct2, THEN conjunct2, THEN conjunct2, THEN conjunct2, THEN conjunct2,
             THEN conjunct2, THEN conjunct2] by simp
  with ee[THEN conjunct1] have B: "\<exists>s'. init_missing_domains ?e = (Inr (), s')
          \<and> missFile s' = Content (''domain'' @ [newline])" by blast
  from h1 h2 h3 h4 h5 h6 A e5 e6 B show ?thesis by blast
qed

text \<open>
  Claim C7 as stated fails: the ledger with the lines \<open>foo\<close>, \<open>b.com\<close> is not left as the
  header line alone, with or without a line feed after it. It ends with the two lines
  \<open>domain\<close>, \<open>b.com\<close>: the line \<open>b.com\<close> stays.
\<close>

theorem reconciliation_not_just_header:
  "fst (init_missing_domains (ParserList ledger_corrupt)) = Inr ()
   \<and> missFile (snd (init_missing_domains (ParserList ledger_corrupt)))
       = Content (''domain'' @ newline # ''b.com'')
   \<and> split_nl (''domain'' @ newline # ''b.com'') = [''domain'', ''b.com'']
   \<and> missFile (snd (init_missing_domains (ParserList ledger_corrupt))) \<noteq> Content ''domain''
   \<and> missFile (snd (init_missing_domains (ParserList ledger_corrupt)))
       \<noteq> Content (''domain'' @ [newline])"
  by (simp add: init_missing_domains_def ParserList_def ledger_corrupt_def missFileContent_def
        newline_def trim_def white_space_def addMiss_def shadowed_def Let_def
        array_sort_def writeFile_def)

section \<open>Isolation of a faulty platform by init\<close>

lemma bound_to_push_new:
  "platform p \<in> platform ` set (push_new c p)"
  "set c \<subseteq> set (push_new c p)"
  by (auto simp: push_new_def)

lemma add_each_consistent:
  "consistent s \<Longrightarrow>
   \<exists>s'. add_each ds p s = (Inr (), s') \<and> consistent s'
        \<and> (\<forall>d\<in>set ds. bound_to s' d (platform p))
        \<and> (\<forall>d P. bound_to s d P \<longrightarrow> bound_to s' d P)
        \<and> missFile s' = missFile s \<and> missFile_writable s' = missFile_writable s"
proof (induction ds arbitrary: s)
  case Nil
  then show ?case by simp
next
  case (Cons d ds)
  from add_consistent[OF Cons.prems, of d p] obtain s1 where
    s1: "add d p s = (Inr (), s1)" "consistent s1"
        "candidates s1 = (candidates s)(d := push_new (candidates s d) p)"
        "missFile s1 = missFile s" "missFile_writable s1 = missFile_writable s" by blast
  have b1: "bound_to s1 d (platform p)"
    unfolding bound_to_def s1(3) using bound_to_push_new(1) by simp
  have m1: "bound_to s1 d' P" if "bound_to s d' P" for d' P
    using that bound_to_push_new(2)[of "candidates s d" p] unfolding bound_to_def s1(3) by auto
  from Cons.IH[OF s1(2)] obtain s' where
    s': "add_each ds p s1 = (Inr (), s')" "consistent s'"
        "\<forall>d\<in>set ds. bound_to s' d (platform p)"
        "\<forall>d P. bound_to s1 d P \<longrightarrow> bound_to s' d P"
        "missFile s' = missFile s1" "missFile_writable s' = missFile_writable s1" by blast
  have "add_each (d # ds) p s = (Inr (), s')" using s1(1) s'(1) by simp
  moreover have "\<forall>x\<in>set (d # ds). bound_to s' x (platform p)" using b1 s'(3,4) by auto
  moreover have "\<forall>d P. bound_to s d P \<longrightarrow> bound_to s' d P" using m1 s'(4) by blast
  ultimately show ?case using s'(2,5,6) s1(4,5) by auto
qed

lemma add_each_append:
  "add_each xs p s = (Inr (), s1) \<Longrightarrow> add_each (xs @ ys) p s = add_each ys p s1"
  by (induction xs arbitrary: s) (auto split: prod.splits sum.splits)

lemma add_each_append_error:
  "add_each xs p s = (Inl e, s1) \<Longrightarrow> add_each (xs @ ys) p s = (Inl e, s1)"
  by (induction xs arbitrary: s) (auto split: prod.splits sum.splits)

lemma addDomainsOf_skipped:
  "manifest_json dir = Manifest m \<Longrightarrow> lacks_required_fields m
   \<Longrightarrow> addDomainsOf extract platformsDir dir s = (Inr (), s)"
  by (auto simp: addDomainsOf_def lacks_required_fields_def Let_def)

lemma addDomainsOf_as_add_each:
  assumes "well_formed extract platformsDir dir" "manifest_json dir = Manifest m"
    and "add_each (declared_domains extract platformsDir dir)
           \<lparr>parser_file = path_resolve (path_resolve platformsDir (dir_name dir)) ''parser.js'',
            platform = the (m_name m), platformName = m_longname m,
            publisherName = m_publisher_name m\<rparr> s = (Inr (), s')"
  shows "addDomainsOf extract platformsDir dir s = (Inr (), s')"
proof -
  let ?p = "\<lparr>parser_file = path_resolve (path_resolve platformsDir (dir_name dir)) ''parser.js'',
            platform = the (m_name m), platformName = m_longname m,
            publisherName = m_publisher_name m\<rparr>"
  let ?lit = "case m_domains m of None \<Rightarrow> [] | Some ds \<Rightarrow> ds"
  from assms(1,2) have req: "\<not> falsy (m_name m)" "\<not> (m_domains m = None \<and> falsy (m_pkb_domains m))"
      "parser_js dir"
    by (auto simp: well_formed_def lacks_required_fields_def)
  show ?thesis
  proof (cases "falsy (m_pkb_domains m)")
    case True
    then have "declared_domains extract platformsDir dir = ?lit"
      using assms(2) by (simp add: declared_domains_def)
    with assms(3) have "add_each ?lit ?p s = (Inr (), s')" by simp
    then show ?thesis using assms(2) req True by (auto simp: addDomainsOf_def Let_def)
  next
    case False
    with assms(1,2) obtain files where files: "pkb dir = Some files"
      by (auto simp: well_formed_def)
    have pf: "pkbFiles_of platformsDir dir =
        map (path_resolve (path_resolve (path_resolve platformsDir (dir_name dir)) ''pkb''))
            (filter pkb_file_pattern files)"
      using files by (simp add: pkbFiles_of_def)
    show ?thesis
    proof (cases "pkbFiles_of platformsDir dir = []")
      case True
      then have "declared_domains extract platformsDir dir = ?lit"
        using assms(2) by (simp add: declared_domains_def)
      with assms(3) have "add_each ?lit ?p s = (Inr (), s')" by simp
      then show ?thesis using assms(2) req False files True[unfolded pf]
        by (auto simp: addDomainsOf_def Let_def)
    next
      case ne: False
      with assms(1,2) False obtain records where
        rec: "extract (pkbFiles_of platformsDir dir) (the (m_pkb_domains m)) = Inr records"
        by (auto simp: well_formed_def split: sum.splits)
      have dd: "declared_domains extract platformsDir dir
                  = ?lit @ record_domains (the (m_pkb_domains m)) records"
        using assms(2) False ne rec by (simp add: declared_domains_def)
      obtain r1 s1 where a1: "add_each ?lit ?p s = (r1, s1)" by (cases "add_each ?lit ?p s")
      have r1: "r1 = Inr ()"
      proof (cases r1)
        case (Inl e)
        from add_each_append_error[OF a1[unfolded Inl]] assms(3) dd show ?thesis by simp
      next
        case (Inr u)
        then show ?thesis by simp
      qed
      from add_each_append[OF a1[unfolded r1]] assms(3) dd
      have a2: "add_each (record_domains (the (m_pkb_domains m)) records) ?p s1 = (Inr (), s')"
        by simp
      show ?thesis using assms(2) req False files ne[unfolded pf] rec[unfolded pf] a1 r1 a2
        by (auto simp: addDomainsOf_def Let_def)
    qed
  qed
qed


lemma addDomainsOf_well_formed:
  assumes c: "consistent s" and w: "well_formed extract platformsDir dir"
  shows "\<exists>s'. addDomainsOf extract platformsDir dir s = (Inr (), s') \<and> consistent s'
        \<and> (\<forall>d\<in>set (declared_domains extract platformsDir dir). bound_to s' d (declared_name dir))
        \<and> (\<forall>d P. bound_to s d P \<longrightarrow> bound_to s' d P)
        \<and> missFile s' = missFile s \<and> missFile_writable s' = missFile_writable s"
proof -
  from w obtain m where m: "manifest_json dir = Manifest m"
    by (cases "manifest_json dir") (auto simp: well_formed_def)
  let ?p = "\<lparr>parser_file = path_resolve (path_resolve platformsDir (dir_name dir)) ''parser.js'',
            platform = the (m_name m), platformName = m_longname m,
            publisherName = m_publisher_name m\<rparr>"
  from add_each_consistent[OF c, of "declared_domains extract platformsDir dir" ?p] obtain s' where
    s': "add_each (declared_domains extract platformsDir dir) ?p s = (Inr (), s')" "consistent s'"
        "\<forall>d\<in>set (declared_domains extract platformsDir dir). bound_to s' d (platform ?p)"
        "\<forall>d P. bound_to s d P \<longrightarrow> bound_to s' d P"
        "missFile s' = missFile s" "missFile_writable s' = missFile_writable s" by blast
  have n: "declared_name dir = platform ?p" using m by (simp add: declared_name_def)
  from addDomainsOf_as_add_each[OF w m s'(1)] s'(2-) n show ?thesis by auto
qed

lemma scan_items_isolated:
  assumes bad: "dir_stat bad = StatDirectory" "manifest_json bad = Manifest mb" "lacks_required_fields mb"
  shows "consistent s \<Longrightarrow>
     \<forall>dir\<in>set items. dir = bad \<or> dir_stat dir = StatFile \<or> well_formed extract platformsDir dir \<Longrightarrow>
     \<exists>s'. scan_items extract platformsDir items s = (Inr (), s') \<and> consistent s'
        \<and> (\<forall>dir\<in>set items. well_formed extract platformsDir dir \<longrightarrow>
              (\<forall>d\<in>set (declared_domains extract platformsDir dir). bound_to s' d (declared_name dir)))
        \<and> (\<forall>d P. bound_to s d P \<longrightarrow> bound_to s' d P)
        \<and> missFile s' = missFile s \<and> missFile_writable s' = missFile_writable s"
proof (induction items arbitrary: s)
  case Nil
  then show ?case by simp
next
  case (Cons item items)
  have rest: "\<forall>dir\<in>set items. dir = bad \<or> dir_stat dir = StatFile \<or> well_formed extract platformsDir dir"
    using Cons.prems(2) by simp
  from Cons.prems(2) consider (B) "item = bad" | (F) "dir_stat item = StatFile"
    | (W) "well_formed extract platformsDir item" by auto
  then show ?case
  proof cases
    case B
    have nw: "\<not> well_formed extract platformsDir item"
      using B bad by (simp add: well_formed_def)
    from Cons.IH[OF Cons.prems(1) rest] obtain s' where
      s': "scan_items extract platformsDir items s = (Inr (), s')" "consistent s'"
        "\<forall>dir\<in>set items. well_formed extract platformsDir dir \<longrightarrow>
              (\<forall>d\<in>set (declared_domains extract platformsDir dir). bound_to s' d (declared_name dir))"
        "\<forall>d P. bound_to s d P \<longrightarrow> bound_to s' d P"
        "missFile s' = missFile s" "missFile_writable s' = missFile_writable s" by blast
    have "scan_items extract platformsDir (item # items) s = (Inr (), s')"
      using B bad(1) addDomainsOf_skipped[OF bad(2,3)] s'(1) by simp
    with s'(2-) nw show ?thesis by auto
  next
    case F
    have nw: "\<not> well_formed extract platformsDir item"
      using F by (simp add: well_formed_def)
    from Cons.IH[OF Cons.prems(1) rest] obtain s' where
      s': "scan_items extract platformsDir items s = (Inr (), s')" "consistent s'"
        "\<forall>dir\<in>set items. well_formed extract platformsDir dir \<longrightarrow>
              (\<forall>d\<in>set (declared_domains extract platformsDir dir). bound_to s' d (declared_name dir))"
        "\<forall>d P. bound_to s d P \<longrightarrow> bound_to s' d P"
        "missFile s' = missFile s" "missFile_writable s' = missFile_writable s" by blast
    have "scan_items extract platformsDir (item # items) s = (Inr (), s')"
      using F s'(1) by simp
    with s'(2-) nw show ?thesis by auto
  next
    case W
    then have st: "dir_stat item = StatDirectory" by (simp add: well_formed_def)
    from addDomainsOf_well_formed[OF Cons.prems(1) W] obtain s1 where
      s1: "addDomainsOf extract platformsDir item s = (Inr (), s1)" "consistent s1"
        "\<forall>d\<in>set (declared_domains extract platformsDir item). bound_to s1 d (declared_name item)"
        "\<forall>d P. bound_to s d P \<longrightarrow> bound_to s1 d P"
        "missFile s1 = missFile s" "missFile_writable s1 = missFile_writable s" by blast
    from Cons.IH[OF s1(2) rest] obtain s' where
      s': "scan_items extract platformsDir items s1 = (Inr (), s')" "consistent s'"
        "\<forall>dir\<in>set items. well_formed extract platformsDir dir \<longrightarrow>
              (\<forall>d\<in>set (declared_domains extract platformsDir dir). bound_to s' d (declared_name dir))"
        "\<forall>d P. bound_to s1 d P \<longrightarrow> bound_to s' d P"
        "missFile s' = missFile s1" "missFile_writable s' = missFile_writable s1" by blast
    have r: "scan_items extract platformsDir (item # items) s = (Inr (), s')"
      using st s1(1) s'(1) by simp
    have i: "\<forall>d\<in>set (declared_domains extract platformsDir item). bound_to s' d (declared_name item)"
      using s1(3) s'(4) by blast
    have m: "\<forall>d P. bound_to s d P \<longrightarrow> bound_to s' d P" using s1(4) s'(4) by blast
    from r i m s'(2,3,5,6) s1(5,6) show ?thesis by auto
  qed
qed

lemma mark_unseen_keeps: "m d = Some v \<Longrightarrow> mark_unseen m ls d = Some v"
proof (induction ls arbitrary: m)
  case Nil
  then show ?case by simp
next
  case (Cons l ls)
  show ?case
  proof (cases "m l")
    case None
    with Cons.prems have "l \<noteq> d" by auto
    with Cons.prems have "(m(l \<mapsto> Unresolved)) d = Some v" by simp
    then have "mark_unseen (m(l \<mapsto> Unresolved)) ls d = Some v" by (rule Cons.IH)
    with None show ?thesis by simp
  next
    case (Some w)
    moreover from Cons.prems have "mark_unseen m ls d = Some v" by (rule Cons.IH)
    ultimately show ?thesis by simp
  qed
qed

lemma bound_to_domains:
  "bound_to s d P \<Longrightarrow> domains s d = Some (Candidates (candidates s d)) \<and> P \<in> platform ` set (candidates s d)"
  unfolding bound_to_def using candidates_nonempty by blast


text \<open>
  The one fault that \<open>init\<close> does isolate. When the manifest of one platform lacks the
  required fields (no name, or neither \<open>domains\<close> nor \<open>pkb-domains\<close>) and every other
  entry that \<open>init\<close> scans is a plain file or a platform that registers without a
  failure, \<open>init\<close> completes (the ledger being readable or missing, and writable): the one platform is skipped and leaves the registry as it was, without any
  report, and every domain that another scanned platform declares is registered with a
  binding of that platform.
\<close>

lemma init_skips_manifest_without_required_fields:
  assumes "dir_stat bad = StatDirectory" "manifest_json bad = Manifest mb" "lacks_required_fields mb"
    and "\<forall>dir\<in>set entries. scanned dir \<longrightarrow>
           dir = bad \<or> dir_stat dir = StatFile \<or> well_formed extract platformsDir dir"
    and "missFile s0 \<noteq> Unreadable" "missFile_writable s0"
  shows "\<exists>s'. init extract platformsDir (Some entries) s0 = (Inr (), s')
           \<and> (\<forall>s. addDomainsOf extract platformsDir bad s = (Inr (), s))
           \<and> (\<forall>dir\<in>set entries. scanned dir \<and> well_formed extract platformsDir dir \<longrightarrow>
                 (\<forall>d\<in>set (declared_domains extract platformsDir dir).
                    \<exists>ps. domains s' d = Some (Candidates ps) \<and> declared_name dir \<in> platform ` set ps))"
proof -
  let ?s = "s0\<lparr>domains := Map.empty, domain_props := {}, platforms := Map.empty, missQueue := []\<rparr>"
  let ?items = "filter (\<lambda>i. \<not> startsWith_dot (dir_name i) \<and> dir_name i \<noteq> ''js-parser-skeleton'') entries"
  have c: "consistent ?s" by (simp add: consistent_def candidates_def)
  have it: "\<forall>dir\<in>set ?items. dir = bad \<or> dir_stat dir = StatFile \<or> well_formed extract platformsDir dir"
    using assms(4) by (simp add: scanned_def)
  from scan_items_isolated[OF assms(1,2,3) c it] obtain s1 where
    s1: "scan_items extract platformsDir ?items ?s = (Inr (), s1)" "consistent s1"
        "\<forall>dir\<in>set ?items. well_formed extract platformsDir dir \<longrightarrow>
              (\<forall>d\<in>set (declared_domains extract platformsDir dir). bound_to s1 d (declared_name dir))"
        "missFile s1 = missFile ?s" "missFile_writable s1 = missFile_writable ?s" by blast
  have sh: "\<not> shadowed s1 ''has''" "\<not> shadowed s1 ''set''"
    using s1(2) by (simp_all add: consistent_def shadowed_def)
  have u: "missFile s1 \<noteq> Unreadable" and wr: "missFile_writable s1"
    using s1(4,5) assms(5,6) by simp_all
  obtain first lines where sp: "split_nl (missFileContent (missFile s1)) = first # lines"
    using split_nl_nonempty by (cases "split_nl (missFileContent (missFile s1))") auto
  note r = init_missing_domains_result[OF sh u wr sp]
  define s' where "s' = s1\<lparr>domains := mark_unseen (domains s1) lines,
                      missFile := Content (''domain'' @ newline #
                          join_nl (array_sort miss_compare (unseen (domains s1) lines))),
                      missFile_writes := missFile_writes s1
                          @ (if trim first \<noteq> ''domain'' then [''domain''] else [])
                          @ [''domain'' @ newline #
                               join_nl (array_sort miss_compare (unseen (domains s1) lines))]\<rparr>"
  have i: "init extract platformsDir (Some entries) s0 = (Inr (), s')"
    using s1(1) r by (simp add: init_def s'_def)
  have reg: "\<exists>ps. domains s' d = Some (Candidates ps) \<and> declared_name dir \<in> platform ` set ps"
    if "dir \<in> set entries" "scanned dir" "well_formed extract platformsDir dir"
       "d \<in> set (declared_domains extract platformsDir dir)" for dir d
  proof -
    from that(1,2) have "dir \<in> set ?items" by (simp add: scanned_def)
    with s1(3) that(3,4) have "bound_to s1 d (declared_name dir)" by blast
    from bound_to_domains[OF this] mark_unseen_keeps[of "domains s1" d _ lines]
    show ?thesis by (auto simp: s'_def)
  qed
  have sk: "\<forall>s. addDomainsOf extract platformsDir bad s = (Inr (), s)"
    using addDomainsOf_skipped[OF assms(2,3)] by simp
  from i sk reg show ?thesis by blast
qed

lemma dir_b_facts:
  "well_formed extract_none ''/ezpaarse/platforms'' dir_b" "scanned dir_b"
  "declared_domains extract_none ''/ezpaarse/platforms'' dir_b = [''b.example.com'']"
  "declared_name dir_b = ''platformB''"
  by (simp_all add: well_formed_def dir_b_def lacks_required_fields_def falsy_def scanned_def
        startsWith_dot_def declared_domains_def declared_name_def)

lemma init_skips_manifest_without_required_fields_example:
  "dir_stat dir_no_domains = StatDirectory
   \<and> (\<exists>mb. manifest_json dir_no_domains = Manifest mb \<and> lacks_required_fields mb)
   \<and> well_formed extract_none ''/ezpaarse/platforms'' dir_b \<and> scanned dir_b
   \<and> (\<exists>s' ps. init extract_none ''/ezpaarse/platforms'' (Some [dir_no_domains, dir_b]) (ParserList Absent)
                  = (Inr (), s')
          \<and> domains s' ''b.example.com'' = Some (Candidates ps) \<and> ''platformB'' \<in> platform ` set ps)"
proof -
  let ?mb = "\<lparr>m_name = Some ''platformC'', m_longname = None,
         m_publisher_name = None, m_domains = None, m_pkb_domains = None\<rparr>"
  have h1: "dir_stat dir_no_domains = StatDirectory" by (simp add: dir_no_domains_def)
  have h2: "manifest_json dir_no_domains = Manifest ?mb" by (simp add: dir_no_domains_def)
  have h3: "lacks_required_fields ?mb" by (simp add: lacks_required_fields_def falsy_def)
  have h4: "\<forall>dir\<in>set [dir_no_domains, dir_b]. scanned dir \<longrightarrow>
              dir = dir_no_domains \<or> dir_stat dir = StatFile
              \<or> well_formed extract_none ''/ezpaarse/platforms'' dir"
    using dir_b_facts(1) by simp
  have h5: "missFile (ParserList Absent) \<noteq> Unreadable" and h6: "missFile_writable (ParserList Absent)"
    by (simp_all add: ParserList_def)
  from init_skips_manifest_without_required_fields[OF h1 h2 h3 h4 h5 h6] obtain s' where
    s': "init extract_none ''/ezpaarse/platforms'' (Some [dir_no_domains, dir_b]) (ParserList Absent)
           = (Inr (), s')"
        "\<forall>dir\<in>set [dir_no_domains, dir_b]. scanned dir \<and> well_formed extract_none ''/ezpaarse/platforms'' dir \<longrightarrow>
                 (\<forall>d\<in>set (declared_domains extract_none ''/ezpaarse/platforms'' dir).
                    \<exists>ps. domains s' d = Some (Candidates ps) \<and> declared_name dir \<in> platform ` set ps)"
    by (elim exE conjE)
  have "dir_b \<in> set [dir_no_domains, dir_b]" by simp
  with s'(2) dir_b_facts(1,2) have
    "\<forall>d\<in>set (declared_domains extract_none ''/ezpaarse/platforms'' dir_b).
        \<exists>ps. domains s' d = Some (Candidates ps) \<and> declared_name dir_b \<in> platform ` set ps"
    by blast
  then have "\<exists>ps. domains s' ''b.example.com'' = Some (Candidates ps) \<and> ''platformB'' \<in> platform ` set ps"
    unfolding dir_b_facts(3,4) by simp
  with s'(1) h1 h2 h3 dir_b_facts(1,2) show ?thesis by blast
qed

text \<open>
  Claim C1 fails on the code. \<open>init\<close> awaits \<open>addDomainsOf\<close> without catching its
  rejection, and \<open>addDomainsOf\<close> guards neither \<open>JSON.parse\<close> nor \<open>fs.stat\<close> of the parser
  file nor \<open>fs.readdir\<close> of the \<open>pkb\<close> folder. With a manifest that does not parse, with
  a missing parser file and with a missing \<open>pkb\<close> folder alike, \<open>init\<close> is rejected at that
  platform: no report is collected, the platform listed after it is never registered,
  and the ledger is not reconciled (it is still missing).
\<close>

theorem init_rejects_on_faulty_platform:
  "fst (init extract_none ''/ezpaarse/platforms'' (Some [dir_unparsable, dir_b]) (ParserList Absent))
     = Inl SyntaxError
   \<and> domains (snd (init extract_none ''/ezpaarse/platforms'' (Some [dir_unparsable, dir_b])
                    (ParserList Absent))) ''b.example.com'' = None
   \<and> missFile (snd (init extract_none ''/ezpaarse/platforms'' (Some [dir_unparsable, dir_b])
                    (ParserList Absent))) = Absent
   \<and> fst (init extract_none ''/ezpaarse/platforms'' (Some [dir_no_parser, dir_b]) (ParserList Absent))
     = Inl IOError
   \<and> domains (snd (init extract_none ''/ezpaarse/platforms'' (Some [dir_no_parser, dir_b])
                    (ParserList Absent))) ''b.example.com'' = None
   \<and> missFile (snd (init extract_none ''/ezpaarse/platforms'' (Some [dir_no_parser, dir_b])
                    (ParserList Absent))) = Absent
   \<and> fst (init extract_none ''/ezpaarse/platforms'' (Some [dir_no_pkb, dir_b]) (ParserList Absent))
     = Inl IOError
   \<and> domains (snd (init extract_none ''/ezpaarse/platforms'' (Some [dir_no_pkb, dir_b])
                    (ParserList Absent))) ''b.example.com'' = None
   \<and> missFile (snd (init extract_none ''/ezpaarse/platforms'' (Some [dir_no_pkb, dir_b])
                    (ParserList Absent))) = Absent"
  by (simp add: init_def ParserList_def dir_unparsable_def dir_no_parser_def dir_no_pkb_def
        dir_b_def startsWith_dot_def addDomainsOf_def falsy_def Let_def)

section \<open>Lookups, invalidation and the drain loop on concrete registries\<close>

lemma registry_shared_eval:
  "domains registry_shared ''shared.example.com'' = Some (Candidates [parserA, parserB])"
  "domains registry_shared ''only-a.example.com'' = Some (Candidates [parserA])"
  "platforms registry_shared ''platformA'' = Some \<lparr>entry_parser = parserA, entry_domains = {''only-a.example.com'', ''shared.example.com''}\<rparr>"
  "platforms registry_shared ''platformB'' = Some \<lparr>entry_parser = parserB, entry_domains = {''shared.example.com''}\<rparr>"
  "domain_props registry_shared = {}"
  "platforms registry_shared ''unknown'' = None"
  by (simp_all add: registry_shared_def add_def ParserList_def shadowed_def parserA_def parserB_def)

text \<open>
  Claim C2 fails on the code: after \<open>clearPlatform\<close> of the first platform, the lookup of the
  domain that the second platform also registered returns \<open>false\<close>, although the second
  platform is still registered and still owns the domain. The domain of the first
  platform alone is gone, as the claim says.
\<close>

theorem clearPlatform_drops_coowned_domain:
  "fst (get ''shared.example.com'' (Some False) registry_shared) = Inr (Candidates [parserA, parserB])
   \<and> platforms (snd (clearPlatform ''platformA'' registry_shared)) ''platformB''
        = Some \<lparr>entry_parser = parserB, entry_domains = {''shared.example.com''}\<rparr>
   \<and> fst (get ''only-a.example.com'' (Some False) (snd (clearPlatform ''platformA'' registry_shared)))
        = Inr Unresolved
   \<and> fst (get ''shared.example.com'' (Some False) (snd (clearPlatform ''platformA'' registry_shared)))
        = Inr Unresolved
   \<and> clearPlatform ''unknown'' registry_shared = (Inr (), registry_shared)"
  by (simp add: registry_shared_eval get_def clearPlatform_def shadowed_def assign_prop_def)

lemma clearPlatform_unknown: "platforms s name = None \<Longrightarrow> clearPlatform name s = (Inr (), s)"
  by (simp add: clearPlatform_def)

text \<open>
  Claim C10, amended. After \<open>clearPlatform\<close> of \<open>P\<close>, the entry of \<open>Q\<close> still owns the domain
  and the map has no entry for it. A later \<open>add\<close> of the domain for \<open>Q\<close> pushes no binding,
  since the platform already owns the domain, but it is not a no-op: it gives the domain
  an empty array. A lookup then returns that empty array, with no binding of \<open>Q\<close>.
\<close>

theorem stale_ownership_after_clearPlatform:
  assumes "methods_intact s" "P \<noteq> Q" "platforms s P = Some eP" "platforms s Q = Some eQ"
    and "d \<in> entry_domains eP" "d \<in> entry_domains eQ" "platform b = Q"
  shows "\<exists>s1 s2. clearPlatform P s = (Inr (), s1)
           \<and> platforms s1 Q = Some eQ \<and> domains s1 d = None
           \<and> add d b s1 = (Inr (), s2)
           \<and> s2 = s1\<lparr>domains := (domains s1)(d \<mapsto> Candidates [])\<rparr>
           \<and> get d (Some False) s2 = (Inr (Candidates []), s2)"
proof -
  define s1 where "s1 = s\<lparr>domains := (\<lambda>x. if x \<in> entry_domains eP then None else domains s x),
                          platforms := (platforms s)(P := None)\<rparr>"
  define s2 where "s2 = s1\<lparr>domains := (domains s1)(d \<mapsto> Candidates [])\<rparr>"
  from assms(1) have m: "\<not> shadowed s ''has''" "\<not> shadowed s ''get''" "\<not> shadowed s ''set''"
      "\<not> shadowed s ''delete''" by (simp_all add: methods_intact_def)
  have 1: "clearPlatform P s = (Inr (), s1)"
    using assms(3) m(4) by (simp add: clearPlatform_def s1_def)
  have 2: "platforms s1 Q = Some eQ" using assms(2,4) by (simp add: s1_def)
  have 3: "domains s1 d = None" using assms(5) by (simp add: s1_def)
  have m1: "\<not> shadowed s1 ''has''" "\<not> shadowed s1 ''get''" "\<not> shadowed s1 ''set''"
    using m by (simp_all add: shadowed_def s1_def)
  have 4: "add d b s1 = (Inr (), s2)"
    using 2 3 m1 assms(6,7) by (simp add: add_def s2_def shadowed_def)
  have 5: "get d (Some False) s2 = (Inr (Candidates []), s2)"
    using m1 by (simp add: get_def s2_def shadowed_def)
  from 1 2 3 4 5 s2_def show ?thesis by blast
qed

theorem stale_ownership_after_clearPlatform_witness:
  "methods_intact registry_shared \<and> ''platformA'' \<noteq> ''platformB''
   \<and> platform parserB = ''platformB''
   \<and> (\<exists>eP eQ. platforms registry_shared ''platformA'' = Some eP
        \<and> platforms registry_shared ''platformB'' = Some eQ
        \<and> ''shared.example.com'' \<in> entry_domains eP \<and> ''shared.example.com'' \<in> entry_domains eQ)
   \<and> (\<exists>s1 s2. clearPlatform ''platformA'' registry_shared = (Inr (), s1)
        \<and> domains s1 ''shared.example.com'' = None
        \<and> add ''shared.example.com'' parserB s1 = (Inr (), s2)
        \<and> get ''shared.example.com'' (Some False) s2 = (Inr (Candidates []), s2))"
proof -
  let ?eP = "\<lparr>entry_parser = parserA, entry_domains = {''only-a.example.com'', ''shared.example.com''}\<rparr>"
  let ?eQ = "\<lparr>entry_parser = parserB, entry_domains = {''shared.example.com''}\<rparr>"
  have h1: "methods_intact registry_shared"
    by (simp add: methods_intact_def shadowed_def registry_shared_eval)
  have h2: "''platformA'' \<noteq> ''platformB''" by simp
  have h3: "platforms registry_shared ''platformA'' = Some ?eP"
    and h4: "platforms registry_shared ''platformB'' = Some ?eQ"
    by (simp_all add: registry_shared_eval)
  have h5: "''shared.example.com'' \<in> entry_domains ?eP"
    and h6: "''shared.example.com'' \<in> entry_domains ?eQ" by simp_all
  have h7: "platform parserB = ''platformB''" by (simp add: parserB_def)
  from stale_ownership_after_clearPlatform[OF h1 h2 h3 h4 h5 h6 h7]
  have "\<exists>s1 s2. clearPlatform ''platformA'' registry_shared = (Inr (), s1)
        \<and> domains s1 ''shared.example.com'' = None
        \<and> add ''shared.example.com'' parserB s1 = (Inr (), s2)
        \<and> get ''shared.example.com'' (Some False) s2 = (Inr (Candidates []), s2)"
    by (elim exE conjE) blast
  with h1 h2 h3 h4 h5 h6 h7 show ?thesis by blast
qed

text \<open>
  Claim C10 as stated fails: the \<open>add\<close> that follows \<open>clearPlatform\<close> is not a no-op, it
  changes the entry of the domain from none to an empty array.
\<close>

theorem add_after_clearPlatform_changes_the_map:
  "domains (snd (clearPlatform ''platformA'' registry_shared)) ''shared.example.com'' = None
   \<and> domains (snd (add ''shared.example.com'' parserB (snd (clearPlatform ''platformA'' registry_shared))))
        ''shared.example.com'' = Some (Candidates [])"
  by (simp add: registry_shared_eval add_def clearPlatform_def shadowed_def parserB_def)

text \<open>
  Claim C3 fails on the code: the first lookup of an unknown hostname returns \<open>false\<close> and
  enqueues one write, but it records the miss as a property of the \<open>Map\<close> object, not as
  an entry of the map; the second lookup finds no entry and enqueues the hostname
  again, so that the ledger receives it twice.
\<close>

theorem second_miss_is_enqueued_again:
  "fst (get ''unknown.example.com'' None (ParserList Absent)) = Inr Unresolved
   \<and> missQueue (snd (get ''unknown.example.com'' None (ParserList Absent))) = [''unknown.example.com'']
   \<and> domains (snd (get ''unknown.example.com'' None (ParserList Absent))) ''unknown.example.com'' = None
   \<and> fst (get ''unknown.example.com'' None (snd (get ''unknown.example.com'' None (ParserList Absent))))
        = Inr Unresolved
   \<and> missQueue missed_twice = [''unknown.example.com'', ''unknown.example.com'']
   \<and> map_option missFile (run [AppendDone 0 True, AppendDone 0 True] missed_twice)
        = Some (Content (newline # ''unknown.example.com'' @ newline # ''unknown.example.com''))"
  by (simp add: missed_twice_def get_def ParserList_def shadowed_def assign_prop_def writeMiss_def
        drain_def appendFile_done_def appendFile_def Let_def)

text \<open>
  Claim C5 fails on the code: when the append of \<open>x.org\<close> fails, the \<open>finally\<close> block removes
  it from the queue, but the exception leaves the loop and rejects the promise of
  \<open>writeMiss\<close>. No append is pending any more while \<open>y.org\<close> is still queued, so the
  next call finds a queue of length 2 and returns: nothing drains the queue again and
  neither \<open>y.org\<close> nor \<open>z.org\<close> reaches the ledger.
\<close>

theorem failed_append_ends_the_drain_loop:
  "map_option fst (appendFile_done 0 False
      (snd (writeMiss ''y.org'' (snd (writeMiss ''x.org'' (ParserList Absent)))))) = Some Rejected
   \<and> map_option missQueue (run events_failure (ParserList Absent)) = Some [''y.org'', ''z.org'']
   \<and> map_option pending_appends (run events_failure (ParserList Absent)) = Some []
   \<and> map_option missFile (run events_failure (ParserList Absent)) = Some Absent
   \<and> run (events_failure @ [AppendDone i ok]) (ParserList Absent) = None"
  by (simp add: events_failure_def ParserList_def writeMiss_def drain_def appendFile_done_def Let_def)

text \<open>
  Claim C9 fails on the code: the loop of \<open>clearCachedParsers\<close> visits no platform,
  whatever the registry holds, and the module cache is left as it was.
\<close>

theorem clearCachedParsers_visits_no_platform:
  "clearCachedParsers_iterations s = 0 \<and> clearCachedParsers s require_cache = require_cache"
  by (simp add: clearCachedParsers_iterations_def clearCachedParsers_def for_in_keys_of_values_def)

end
